theory Spec2Isabelle
  imports Complex_Main "HOL-Library.Word" "HOL-Library.Log_Nat"
begin

section \<open>Clock samples and elapsed seconds\<close>

text \<open>
  A \<^verbatim>\<open>struct timespec\<close> as filled in by \<^verbatim>\<open>clock_gettime(CLOCK_MONOTONIC, ...)\<close>.
  Both fields are signed 64-bit integers in the source; the only arithmetic on them is the
  difference of two samples, which stays far from the 64-bit limits, so they are plain
  integers here. In the first model of the three structs a \<^verbatim>\<open>double\<close> is the real
  number it stands for and the operations are exact; the rate gate, whose outcome depends
  on the rounding, is modelled again in binary64 further down.
\<close>

record timespec =
  tv_sec :: int
  tv_nsec :: int

text \<open>
  The expression \<^verbatim>\<open>(a.tv_sec - b.tv_sec) + (a.tv_nsec - b.tv_nsec) / 1E9\<close>, which the
  source writes out at each of its five uses.
\<close>

definition timespec_diff :: "timespec \<Rightarrow> timespec \<Rightarrow> real" where
  "timespec_diff a b =
     real_of_int (tv_sec a - tv_sec b) + real_of_int (tv_nsec a - tv_nsec b) / 1000000000"

text \<open>The instant a sample denotes, in seconds; used only to state properties.\<close>

definition seconds_of :: "timespec \<Rightarrow> real" where
  "seconds_of t = real_of_int (tv_sec t) + real_of_int (tv_nsec t) / 1000000000"

section \<open>Standard output and string reads\<close>

datatype stdout_op = Putchar char | Fflush


datatype fault = ModuloByZero | SubscriptPastEnd

text \<open>
  \<^verbatim>\<open>i % s.length()\<close> on \<^verbatim>\<open>unsigned long\<close>: undefined for the empty string.
\<close>

definition index_mod_length :: "64 word \<Rightarrow> string \<Rightarrow> fault + 64 word" where
  "index_mod_length i s =
     (if length s = 0 then Inl ModuloByZero else Inr (i mod word_of_nat (length s)))"

text \<open>
  \<^verbatim>\<open>s[pos]\<close> of \<^verbatim>\<open>std::string\<close>: the character at \<^verbatim>\<open>pos\<close> below the length,
  the terminating NUL at \<^verbatim>\<open>pos == s.length()\<close>, undefined beyond.
\<close>

definition string_subscript :: "string \<Rightarrow> 64 word \<Rightarrow> fault + char" where
  "string_subscript s pos =
     (if unat pos < length s then Inr (s ! unat pos)
      else if unat pos = length s then Inr (CHR 0x00)
      else Inl SubscriptPastEnd)"

section \<open>Spinner\<close>

record Spinner =
  last :: timespec
  now :: timespec
  freq :: int
  period :: real
  spinIndex :: "64 word"
  spin_chars :: string

text \<open>
  The constructor. \<^verbatim>\<open>t0\<close> is the sample that \<^verbatim>\<open>clock_gettime\<close> stores in \<^verbatim>\<open>last\<close>;
  the member \<^verbatim>\<open>now\<close> is left uninitialised by the source, so its content \<^verbatim>\<open>junk\<close>
  is arbitrary.
\<close>

definition Spinner_init :: "int \<Rightarrow> timespec \<Rightarrow> timespec \<Rightarrow> Spinner" where
  "Spinner_init frequency t0 junk =
     \<lparr> last = t0, now = junk, freq = frequency,
       period = 1 / (real_of_int frequency + 1 / 1000000),
       spinIndex = 0,
       spin_chars = [CHR ''/'', CHR ''-'', CHR 0x5C, CHR ''|''] \<rparr>"

text \<open>
  \<^verbatim>\<open>operator()\<close>: one poll. \<^verbatim>\<open>t\<close> is the sample read into \<^verbatim>\<open>now\<close>. The result is
  the new object and the operations performed on standard output by this call.
\<close>

definition Spinner_call :: "timespec \<Rightarrow> Spinner \<Rightarrow> fault + (Spinner \<times> stdout_op list)" where
  "Spinner_call t s =
     (let s1 = s\<lparr>Spinner.now := t\<rparr>;
          timeElapsed = timespec_diff (Spinner.now s1) (Spinner.last s1)
      in if Spinner.period s1 - timeElapsed < 1 / 1000 then
           (case index_mod_length (Spinner.spinIndex s1) (Spinner.spin_chars s1) of
              Inl e \<Rightarrow> Inl e
            | Inr i \<Rightarrow>
                (case string_subscript (Spinner.spin_chars s1) i of
                   Inl e \<Rightarrow> Inl e
                 | Inr c \<Rightarrow>
                     Inr (s1\<lparr>Spinner.spinIndex := Spinner.spinIndex s1 + 1,
                              Spinner.last := Spinner.now s1\<rparr>,
                          [Putchar CHR '' '', Putchar c, Putchar CHR '' '', Fflush,
                           Putchar CHR 0x0D])))
         else Inr (s1, []))"

text \<open>A caller's polling loop: one call per clock sample, outputs in order.\<close>

fun Spinner_polls :: "timespec list \<Rightarrow> Spinner \<Rightarrow> fault + (Spinner \<times> stdout_op list)" where
  "Spinner_polls [] s = Inr (s, [])"
| "Spinner_polls (t # ts) s =
     (case Spinner_call t s of
        Inl e \<Rightarrow> Inl e
      | Inr (s1, out1) \<Rightarrow>
          (case Spinner_polls ts s1 of
             Inl e \<Rightarrow> Inl e
           | Inr (s2, out2) \<Rightarrow> Inr (s2, out1 @ out2)))"

section \<open>Dotter\<close>

record Dotter =
  last :: timespec
  now :: timespec
  freq :: int
  period :: real
  spinIndex :: "64 word"
  spin_chars :: string

definition Dotter_init :: "int \<Rightarrow> timespec \<Rightarrow> timespec \<Rightarrow> Dotter" where
  "Dotter_init frequency t0 junk =
     \<lparr> last = t0, now = junk, freq = frequency,
       period = 1 / real_of_int frequency,
       spinIndex = 0,
       spin_chars = ''... .. .. .. .... .... .'' \<rparr>"

text \<open>
  The four subscripts of one frame: \<^verbatim>\<open>(spinIndex % spin_chars.length()) + k\<close> for
  \<^verbatim>\<open>k = 0, 1, 2, 3\<close>, in \<^verbatim>\<open>unsigned long\<close> arithmetic.
\<close>

definition Dotter_subscripts :: "Dotter \<Rightarrow> fault + 64 word list" where
  "Dotter_subscripts s =
     (case index_mod_length (Dotter.spinIndex s) (Dotter.spin_chars s) of
        Inl e \<Rightarrow> Inl e
      | Inr b \<Rightarrow> Inr [b, b + 1, b + 2, b + 3])"

fun read_all :: "string \<Rightarrow> 64 word list \<Rightarrow> fault + char list" where
  "read_all s [] = Inr []"
| "read_all s (i # is) =
     (case string_subscript s i of
        Inl e \<Rightarrow> Inl e
      | Inr c \<Rightarrow> (case read_all s is of Inl e \<Rightarrow> Inl e | Inr cs \<Rightarrow> Inr (c # cs)))"

definition Dotter_call :: "timespec \<Rightarrow> Dotter \<Rightarrow> fault + (Dotter \<times> stdout_op list)" where
  "Dotter_call t s =
     (let s1 = s\<lparr>Dotter.now := t\<rparr>;
          timeElapsed = timespec_diff (Dotter.now s1) (Dotter.last s1)
      in if Dotter.period s1 - timeElapsed < 1 / 1000 then
           (case Dotter_subscripts s1 of
              Inl e \<Rightarrow> Inl e
            | Inr is \<Rightarrow>
                (case read_all (Dotter.spin_chars s1) is of
                   Inl e \<Rightarrow> Inl e
                 | Inr cs \<Rightarrow>
                     Inr (s1\<lparr>Dotter.spinIndex := Dotter.spinIndex s1 + 4,
                              Dotter.last := Dotter.now s1\<rparr>,
                          [Putchar CHR '' ''] @ map Putchar cs @
                          [Putchar CHR '' '', Fflush, Putchar CHR 0x0D])))
         else Inr (s1, []))"

fun Dotter_polls :: "timespec list \<Rightarrow> Dotter \<Rightarrow> fault + (Dotter \<times> stdout_op list)" where
  "Dotter_polls [] s = Inr (s, [])"
| "Dotter_polls (t # ts) s =
     (case Dotter_call t s of
        Inl e \<Rightarrow> Inl e
      | Inr (s1, out1) \<Rightarrow>
          (case Dotter_polls ts s1 of
             Inl e \<Rightarrow> Inl e
           | Inr (s2, out2) \<Rightarrow> Inr (s2, out1 @ out2)))"

section \<open>Timer\<close>

record Timer =
  laps :: "real list"
  running :: bool
  start :: timespec
  lap :: timespec
  now :: timespec
  elapsedTime :: real
  lapTime :: real

text \<open>
  The constructor initialises \<^verbatim>\<open>running\<close>, \<^verbatim>\<open>elapsedTime\<close> and \<^verbatim>\<open>lapTime\<close>; the
  vector \<^verbatim>\<open>laps\<close> starts empty; the three samples are left uninitialised, so their
  contents are arbitrary.
\<close>

definition Timer_init :: "timespec \<Rightarrow> timespec \<Rightarrow> timespec \<Rightarrow> Timer" where
  "Timer_init junk_start junk_lap junk_now =
     \<lparr> laps = [], running = False, start = junk_start, lap = junk_lap, now = junk_now,
       elapsedTime = 0, lapTime = 0 \<rparr>"

definition Timer_Start :: "timespec \<Rightarrow> Timer \<Rightarrow> Timer" where
  "Timer_Start t tm =
     (let tm1 = tm\<lparr>start := t\<rparr>;
          tm2 = tm1\<lparr>lap := start tm1\<rparr>
      in tm2\<lparr>running := True\<rparr>)"

definition Timer_Stop :: "Timer \<Rightarrow> Timer" where
  "Timer_Stop tm = (let tm1 = tm\<lparr>lapTime := 0\<rparr> in tm1\<lparr>running := False\<rparr>)"

definition Timer_Elapsed :: "timespec \<Rightarrow> Timer \<Rightarrow> real \<times> Timer" where
  "Timer_Elapsed t tm =
     (if running tm then
        (let tm1 = tm\<lparr>Timer.now := t\<rparr>;
             tm2 = tm1\<lparr>elapsedTime := timespec_diff (Timer.now tm1) (start tm1)\<rparr>
         in (elapsedTime tm2, tm2))
      else (0, tm))"

definition Timer_Lap :: "timespec \<Rightarrow> Timer \<Rightarrow> real \<times> Timer" where
  "Timer_Lap t tm =
     (let tm1 = tm\<lparr>Timer.now := t\<rparr>;
          tm2 = tm1\<lparr>lapTime := timespec_diff (Timer.now tm1) (lap tm1)\<rparr>;
          tm3 = tm2\<lparr>laps := laps tm2 @ [lapTime tm2]\<rparr>;
          tm4 = tm3\<lparr>lap := Timer.now tm3\<rparr>
      in (lapTime tm4, tm4))"

definition Timer_GetCurrentLapTime :: "timespec \<Rightarrow> Timer \<Rightarrow> real \<times> Timer" where
  "Timer_GetCurrentLapTime t tm =
     (let tm1 = tm\<lparr>Timer.now := t\<rparr>;
          tm2 = tm1\<lparr>lapTime := timespec_diff (Timer.now tm1) (lap tm1)\<rparr>
      in (lapTime tm2, tm2))"

text \<open>
  A client of a Timer: any sequence of calls of its five member functions, each with the
  clock sample it would read (\<^verbatim>\<open>Stop\<close> reads none and ignores it).
\<close>

datatype Timer_op = Start | Stop | Elapsed | Lap | GetCurrentLapTime

fun Timer_apply :: "Timer_op \<times> timespec \<Rightarrow> Timer \<Rightarrow> Timer" where
  "Timer_apply (Start, t) tm = Timer_Start t tm"
| "Timer_apply (Stop, t) tm = Timer_Stop tm"
| "Timer_apply (Elapsed, t) tm = snd (Timer_Elapsed t tm)"
| "Timer_apply (Lap, t) tm = snd (Timer_Lap t tm)"
| "Timer_apply (GetCurrentLapTime, t) tm = snd (Timer_GetCurrentLapTime t tm)"

fun Timer_calls :: "(Timer_op \<times> timespec) list \<Rightarrow> Timer \<Rightarrow> Timer" where
  "Timer_calls [] tm = tm"
| "Timer_calls (c # cs) tm = Timer_calls cs (Timer_apply c tm)"

fun count_Lap :: "(Timer_op \<times> timespec) list \<Rightarrow> nat" where
  "count_Lap [] = 0"
| "count_Lap ((Lap, t) # cs) = Suc (count_Lap cs)"
| "count_Lap (c # cs) = count_Lap cs"

section \<open>Binary64 arithmetic\<close>

text \<open>
  The \<^verbatim>\<open>double\<close> of the source is IEEE 754 binary64 with every operation rounded to
  nearest, ties to even, and no wider intermediate results (as on x86-64). A finite
  double is represented by the real number it denotes. The sign of a zero is not
  represented: the only zero divisor the source can produce is the conversion of the
  integer 0, which is positive.
\<close>

datatype double = Finite real | PlusInf | MinusInf | NaN

text \<open>The power of two with an integer exponent.\<close>

definition pow2 :: "int \<Rightarrow> real" where
  "pow2 e = (if 0 \<le> e then 2 ^ nat e else 1 / 2 ^ nat (- e))"

text \<open>
  For positive \<open>x\<close> the exponent \<open>e\<close> with \<open>pow2 e \<le> x < pow2 (e + 1)\<close>, from the
  bit length of the integer part of \<open>x\<close> or of \<open>1 / x\<close>.
\<close>

definition ilog2 :: "real \<Rightarrow> int" where
  "ilog2 x = (if 1 \<le> x then bitlen \<lfloor>x\<rfloor> - 1 else - bitlen (\<lceil>1 / x\<rceil> - 1))"

text \<open>The nearest integer, the even one of the two when they are equally near.\<close>

definition round_half_even :: "real \<Rightarrow> int" where
  "round_half_even m =
     (let f = \<lfloor>m\<rfloor>; d = m - of_int f
      in if d < 1 / 2 then f else if 1 / 2 < d then f + 1 else if even f then f else f + 1)"

text \<open>
  Rounding of a real to binary64: 53 significant bits at the exponent of \<open>x\<close>, the
  exponent not below that of the subnormal numbers, and an infinity when the rounded
  value reaches \<open>pow2 1024\<close>.
\<close>

definition b64_round :: "real \<Rightarrow> double" where
  "b64_round x =
     (if x = 0 then Finite 0
      else let e = max (ilog2 \<bar>x\<bar>) (- 1022);
               q = pow2 (e - 52);
               n = round_half_even (x / q)
           in if 1024 \<le> e \<or> (e = 1023 \<and> \<bar>n\<bar> = 9007199254740992)
              then (if 0 < x then PlusInf else MinusInf)
              else Finite (of_int n * q))"

text \<open>Addition, subtraction, division and comparison of doubles.\<close>

fun b64_add :: "double \<Rightarrow> double \<Rightarrow> double" where
  "b64_add (Finite x) (Finite y) = b64_round (x + y)"
| "b64_add NaN b = NaN"
| "b64_add a NaN = NaN"
| "b64_add PlusInf MinusInf = NaN"
| "b64_add MinusInf PlusInf = NaN"
| "b64_add PlusInf b = PlusInf"
| "b64_add a PlusInf = PlusInf"
| "b64_add MinusInf b = MinusInf"
| "b64_add a MinusInf = MinusInf"

fun b64_sub :: "double \<Rightarrow> double \<Rightarrow> double" where
  "b64_sub (Finite x) (Finite y) = b64_round (x - y)"
| "b64_sub NaN b = NaN"
| "b64_sub a NaN = NaN"
| "b64_sub PlusInf PlusInf = NaN"
| "b64_sub MinusInf MinusInf = NaN"
| "b64_sub PlusInf b = PlusInf"
| "b64_sub a PlusInf = MinusInf"
| "b64_sub MinusInf b = MinusInf"
| "b64_sub a MinusInf = PlusInf"

fun b64_div :: "double \<Rightarrow> double \<Rightarrow> double" where
  "b64_div (Finite x) (Finite y) =
     (if y = 0 then (if x = 0 then NaN else if 0 < x then PlusInf else MinusInf)
      else b64_round (x / y))"
| "b64_div NaN b = NaN"
| "b64_div a NaN = NaN"
| "b64_div (Finite x) b = Finite 0"
| "b64_div PlusInf (Finite y) = (if 0 \<le> y then PlusInf else MinusInf)"
| "b64_div MinusInf (Finite y) = (if 0 \<le> y then MinusInf else PlusInf)"
| "b64_div PlusInf b = NaN"
| "b64_div MinusInf b = NaN"

fun b64_less :: "double \<Rightarrow> double \<Rightarrow> bool" where
  "b64_less (Finite x) (Finite y) = (x < y)"
| "b64_less NaN b = False"
| "b64_less a NaN = False"
| "b64_less a MinusInf = False"
| "b64_less MinusInf b = True"
| "b64_less PlusInf b = False"
| "b64_less a PlusInf = True"

text \<open>The conversion of an integer operand to double.\<close>

definition b64_of_int :: "int \<Rightarrow> double" where
  "b64_of_int n = b64_round (real_of_int n)"

text \<open>
  The expression \<^verbatim>\<open>(a.tv_sec - b.tv_sec) + (a.tv_nsec - b.tv_nsec) / 1E9\<close> as the
  source evaluates it: the two differences in integers, then in double.
\<close>

definition timespec_diff_b64 :: "timespec \<Rightarrow> timespec \<Rightarrow> double" where
  "timespec_diff_b64 a b =
     b64_add (b64_of_int (tv_sec a - tv_sec b))
       (b64_div (b64_of_int (tv_nsec a - tv_nsec b)) (b64_round 1000000000))"

section \<open>Spinner and Dotter with the period and the gate in binary64\<close>

text \<open>
  The same two structs with the member \<^verbatim>\<open>period\<close> as the double the source stores
  and the test \<^verbatim>\<open>period - timeElapsed < 1E-3\<close> evaluated in binary64, one rounding per
  operation. The integer operands are converted to double first, as the usual
  arithmetic conversions of the source do.
\<close>

record Spinner64 =
  last :: timespec
  now :: timespec
  freq :: int
  period :: double
  spinIndex :: "64 word"
  spin_chars :: string

definition Spinner64_init :: "int \<Rightarrow> timespec \<Rightarrow> timespec \<Rightarrow> Spinner64" where
  "Spinner64_init frequency t0 junk =
     \<lparr> last = t0, now = junk, freq = frequency,
       period = b64_div (b64_of_int 1)
                  (b64_add (b64_of_int frequency) (b64_round (1 / 1000000))),
       spinIndex = 0,
       spin_chars = [CHR ''/'', CHR ''-'', CHR 0x5C, CHR ''|''] \<rparr>"

definition Spinner64_call ::
  "timespec \<Rightarrow> Spinner64 \<Rightarrow> fault + (Spinner64 \<times> stdout_op list)" where
  "Spinner64_call t s =
     (let s1 = s\<lparr>Spinner64.now := t\<rparr>;
          timeElapsed = timespec_diff_b64 (Spinner64.now s1) (Spinner64.last s1)
      in if b64_less (b64_sub (Spinner64.period s1) timeElapsed) (b64_round (1 / 1000)) then
           (case index_mod_length (Spinner64.spinIndex s1) (Spinner64.spin_chars s1) of
              Inl e \<Rightarrow> Inl e
            | Inr i \<Rightarrow>
                (case string_subscript (Spinner64.spin_chars s1) i of
                   Inl e \<Rightarrow> Inl e
                 | Inr c \<Rightarrow>
                     Inr (s1\<lparr>Spinner64.spinIndex := Spinner64.spinIndex s1 + 1,
                              Spinner64.last := Spinner64.now s1\<rparr>,
                          [Putchar CHR '' '', Putchar c, Putchar CHR '' '', Fflush,
                           Putchar CHR 0x0D])))
         else Inr (s1, []))"

fun Spinner64_polls ::
  "timespec list \<Rightarrow> Spinner64 \<Rightarrow> fault + (Spinner64 \<times> stdout_op list)" where
  "Spinner64_polls [] s = Inr (s, [])"
| "Spinner64_polls (t # ts) s =
     (case Spinner64_call t s of
        Inl e \<Rightarrow> Inl e
      | Inr (s1, out1) \<Rightarrow>
          (case Spinner64_polls ts s1 of
             Inl e \<Rightarrow> Inl e
           | Inr (s2, out2) \<Rightarrow> Inr (s2, out1 @ out2)))"

record Dotter64 =
  last :: timespec
  now :: timespec
  freq :: int
  period :: double
  spinIndex :: "64 word"
  spin_chars :: string

definition Dotter64_init :: "int \<Rightarrow> timespec \<Rightarrow> timespec \<Rightarrow> Dotter64" where
  "Dotter64_init frequency t0 junk =
     \<lparr> last = t0, now = junk, freq = frequency,
       period = b64_div (b64_of_int 1) (b64_of_int frequency),
       spinIndex = 0,
       spin_chars = ''... .. .. .. .... .... .'' \<rparr>"

definition Dotter64_subscripts :: "Dotter64 \<Rightarrow> fault + 64 word list" where
  "Dotter64_subscripts s =
     (case index_mod_length (Dotter64.spinIndex s) (Dotter64.spin_chars s) of
        Inl e \<Rightarrow> Inl e
      | Inr b \<Rightarrow> Inr [b, b + 1, b + 2, b + 3])"

definition Dotter64_call ::
  "timespec \<Rightarrow> Dotter64 \<Rightarrow> fault + (Dotter64 \<times> stdout_op list)" where
  "Dotter64_call t s =
     (let s1 = s\<lparr>Dotter64.now := t\<rparr>;
          timeElapsed = timespec_diff_b64 (Dotter64.now s1) (Dotter64.last s1)
      in if b64_less (b64_sub (Dotter64.period s1) timeElapsed) (b64_round (1 / 1000)) then
           (case Dotter64_subscripts s1 of
              Inl e \<Rightarrow> Inl e
            | Inr is \<Rightarrow>
                (case read_all (Dotter64.spin_chars s1) is of
                   Inl e \<Rightarrow> Inl e
                 | Inr cs \<Rightarrow>
                     Inr (s1\<lparr>Dotter64.spinIndex := Dotter64.spinIndex s1 + 4,
                              Dotter64.last := Dotter64.now s1\<rparr>,
                          [Putchar CHR '' ''] @ map Putchar cs @
                          [Putchar CHR '' '', Fflush, Putchar CHR 0x0D])))
         else Inr (s1, []))"

fun Dotter64_polls ::
  "timespec list \<Rightarrow> Dotter64 \<Rightarrow> fault + (Dotter64 \<times> stdout_op list)" where
  "Dotter64_polls [] s = Inr (s, [])"
| "Dotter64_polls (t # ts) s =
     (case Dotter64_call t s of
        Inl e \<Rightarrow> Inl e
      | Inr (s1, out1) \<Rightarrow>
          (case Dotter64_polls ts s1 of
             Inl e \<Rightarrow> Inl e
           | Inr (s2, out2) \<Rightarrow> Inr (s2, out1 @ out2)))"

section \<open>Differences of samples\<close>

lemma timespec_diff_seconds: "timespec_diff a b = seconds_of a - seconds_of b"
  by (simp add: timespec_diff_def seconds_of_def field_simps)

section \<open>Properties of the Timer\<close>

lemma laps_Timer_Start: "laps (Timer_Start t tm) = laps tm"
  by (simp add: Timer_Start_def)

lemma laps_Timer_Stop: "laps (Timer_Stop tm) = laps tm"
  by (simp add: Timer_Stop_def)

lemma laps_Timer_Elapsed: "laps (snd (Timer_Elapsed t tm)) = laps tm"
  by (simp add: Timer_Elapsed_def)

lemma laps_Timer_GetCurrentLapTime: "laps (snd (Timer_GetCurrentLapTime t tm)) = laps tm"
  by (simp add: Timer_GetCurrentLapTime_def)

lemma laps_Timer_Lap:
  "laps (snd (Timer_Lap t tm)) = laps tm @ [seconds_of t - seconds_of (lap tm)]"
  by (simp add: Timer_Lap_def timespec_diff_seconds)

lemma laps_Timer_apply:
  "\<exists>new. laps (Timer_apply c tm) = laps tm @ new \<and> length new = count_Lap [c]"
proof (cases c)
  case (Pair op t)
  then show ?thesis
    by (cases op)
      (simp_all add: laps_Timer_Start laps_Timer_Stop laps_Timer_Elapsed
        laps_Timer_GetCurrentLapTime laps_Timer_Lap)
qed

lemma count_Lap_Cons: "count_Lap (c # cs) = count_Lap [c] + count_Lap cs"
proof (cases c)
  case (Pair op t)
  then show ?thesis by (cases op) simp_all
qed

lemma laps_Timer_calls:
  "\<exists>new. laps (Timer_calls cs tm) = laps tm @ new \<and> length new = count_Lap cs"
proof (induction cs arbitrary: tm)
  case Nil
  show ?case by simp
next
  case (Cons c cs)
  obtain new1 where n1: "laps (Timer_apply c tm) = laps tm @ new1" "length new1 = count_Lap [c]"
    using laps_Timer_apply by blast
  obtain new2 where n2: "laps (Timer_calls cs (Timer_apply c tm)) = laps (Timer_apply c tm) @ new2"
      "length new2 = count_Lap cs"
    using Cons.IH by blast
  have "laps (Timer_calls (c # cs) tm) = laps tm @ (new1 @ new2)"
    using n1 n2 by simp
  moreover have "length (new1 @ new2) = count_Lap (c # cs)"
    using n1 n2 count_Lap_Cons [of c cs] by simp
  ultimately show ?case by blast
qed

text \<open>
  C3. \<^verbatim>\<open>Elapsed()\<close> returns the seconds from the start sample to the sample it reads
  when the timer is running, and exactly 0 when it is not; so it returns 0 after
  \<^verbatim>\<open>Stop()\<close> and on a freshly constructed timer.
\<close>

theorem Timer_Elapsed_result:
  "(running tm \<longrightarrow> fst (Timer_Elapsed t tm) = seconds_of t - seconds_of (start tm)) \<and>
   (\<not> running tm \<longrightarrow> fst (Timer_Elapsed t tm) = 0) \<and>
   fst (Timer_Elapsed t (Timer_Stop tm)) = 0 \<and>
   fst (Timer_Elapsed t (Timer_init junk_start junk_lap junk_now)) = 0"
  by (simp add: Timer_Elapsed_def Timer_Stop_def Timer_init_def timespec_diff_seconds)

theorem Timer_Elapsed_result_witness:
  "running (Timer_Start \<lparr>tv_sec = 10, tv_nsec = 500000000\<rparr>
      (Timer_init \<lparr>tv_sec = 0, tv_nsec = 0\<rparr> \<lparr>tv_sec = 0, tv_nsec = 0\<rparr>
         \<lparr>tv_sec = 0, tv_nsec = 0\<rparr>)) \<and>
   fst (Timer_Elapsed \<lparr>tv_sec = 12, tv_nsec = 0\<rparr>
      (Timer_Start \<lparr>tv_sec = 10, tv_nsec = 500000000\<rparr>
         (Timer_init \<lparr>tv_sec = 0, tv_nsec = 0\<rparr> \<lparr>tv_sec = 0, tv_nsec = 0\<rparr>
            \<lparr>tv_sec = 0, tv_nsec = 0\<rparr>))) = 3 / 2 \<and>
   \<not> running (Timer_Stop (Timer_Start \<lparr>tv_sec = 10, tv_nsec = 500000000\<rparr>
      (Timer_init \<lparr>tv_sec = 0, tv_nsec = 0\<rparr> \<lparr>tv_sec = 0, tv_nsec = 0\<rparr>
         \<lparr>tv_sec = 0, tv_nsec = 0\<rparr>))) \<and>
   fst (Timer_Elapsed \<lparr>tv_sec = 12, tv_nsec = 0\<rparr>
      (Timer_Stop (Timer_Start \<lparr>tv_sec = 10, tv_nsec = 500000000\<rparr>
         (Timer_init \<lparr>tv_sec = 0, tv_nsec = 0\<rparr> \<lparr>tv_sec = 0, tv_nsec = 0\<rparr>
            \<lparr>tv_sec = 0, tv_nsec = 0\<rparr>)))) = 0"
  using
    Timer_Elapsed_result [of "Timer_Start \<lparr>tv_sec = 10, tv_nsec = 500000000\<rparr>
      (Timer_init \<lparr>tv_sec = 0, tv_nsec = 0\<rparr> \<lparr>tv_sec = 0, tv_nsec = 0\<rparr>
         \<lparr>tv_sec = 0, tv_nsec = 0\<rparr>)" "\<lparr>tv_sec = 12, tv_nsec = 0\<rparr>"]
    Timer_Elapsed_result [of "Timer_Stop (Timer_Start \<lparr>tv_sec = 10, tv_nsec = 500000000\<rparr>
      (Timer_init \<lparr>tv_sec = 0, tv_nsec = 0\<rparr> \<lparr>tv_sec = 0, tv_nsec = 0\<rparr>
         \<lparr>tv_sec = 0, tv_nsec = 0\<rparr>))" "\<lparr>tv_sec = 12, tv_nsec = 0\<rparr>"]
  by (simp add: Timer_Start_def Timer_Stop_def Timer_init_def seconds_of_def)

text \<open>
  C6. Whatever the state of the timer, running or not, \<^verbatim>\<open>Lap()\<close> returns the seconds
  from the lap reference point to the sample it reads, appends that value to \<^verbatim>\<open>laps\<close>
  and moves the lap reference point to the sample; the running flag is not consulted
  and not changed. The lap reference point is the sample of \<^verbatim>\<open>Start()\<close> until a
  lap is taken.
\<close>

theorem Timer_Lap_effect:
  "fst (Timer_Lap t tm) = seconds_of t - seconds_of (lap tm) \<and>
   laps (snd (Timer_Lap t tm)) = laps tm @ [fst (Timer_Lap t tm)] \<and>
   lap (snd (Timer_Lap t tm)) = t \<and>
   running (snd (Timer_Lap t tm)) = running tm \<and>
   lap (Timer_Start t0 tm) = t0"
  by (simp add: Timer_Lap_def Timer_Start_def timespec_diff_seconds)

text \<open>
  C7. \<^verbatim>\<open>Stop()\<close> clears the running flag and leaves the recorded laps, the start
  sample and the lap reference point as they were.
\<close>

theorem Timer_Stop_frame:
  "running (Timer_Stop tm) = False \<and>
   laps (Timer_Stop tm) = laps tm \<and>
   start (Timer_Stop tm) = start tm \<and>
   lap (Timer_Stop tm) = lap tm"
  by (simp add: Timer_Stop_def)

text \<open>
  C9. \<^verbatim>\<open>GetCurrentLapTime()\<close> returns what \<^verbatim>\<open>Lap()\<close> would return at the same
  clock sample, the seconds since the lap reference point, and changes neither the
  recorded laps nor the lap reference point.
\<close>

theorem Timer_GetCurrentLapTime_peek:
  "fst (Timer_GetCurrentLapTime t tm) = fst (Timer_Lap t tm) \<and>
   fst (Timer_GetCurrentLapTime t tm) = seconds_of t - seconds_of (lap tm) \<and>
   laps (snd (Timer_GetCurrentLapTime t tm)) = laps tm \<and>
   lap (snd (Timer_GetCurrentLapTime t tm)) = lap tm"
  by (simp add: Timer_GetCurrentLapTime_def Timer_Lap_def timespec_diff_seconds)

text \<open>
  C10. The recorded laps are append-only: \<^verbatim>\<open>Start()\<close> (also a restart),
  \<^verbatim>\<open>Stop()\<close>, \<^verbatim>\<open>Elapsed()\<close> and \<^verbatim>\<open>GetCurrentLapTime()\<close> leave them unchanged,
  \<^verbatim>\<open>Lap()\<close> appends exactly one value, and after any sequence of calls the laps are
  the earlier ones followed by one new value per \<^verbatim>\<open>Lap()\<close> call.
\<close>

theorem Timer_laps_append_only:
  "laps (Timer_Start t tm) = laps tm \<and>
   laps (Timer_Stop tm) = laps tm \<and>
   laps (snd (Timer_Elapsed t tm)) = laps tm \<and>
   laps (snd (Timer_GetCurrentLapTime t tm)) = laps tm \<and>
   (\<exists>v. laps (snd (Timer_Lap t tm)) = laps tm @ [v]) \<and>
   (\<exists>new. laps (Timer_calls cs tm) = laps tm @ new \<and> length new = count_Lap cs)"
  using laps_Timer_calls [of cs tm]
  by (simp add: laps_Timer_Start laps_Timer_Stop laps_Timer_Elapsed
      laps_Timer_GetCurrentLapTime laps_Timer_Lap)

section \<open>Frame index arithmetic and single polls\<close>

lemma unat_mod4: "unat ((w::64 word) mod 4) = unat w mod 4"
  by (simp add: unat_mod_distrib)

lemma word_of_nat_mod4: "unat (word_of_nat n :: 64 word) mod 4 = n mod 4"
proof -
  have "unat (word_of_nat n :: 64 word) = n mod 2 ^ 64" by (simp add: unat_of_nat)
  moreover have "(4::nat) dvd 2 ^ 64" by simp
  ultimately show ?thesis by (simp add: mod_mod_cancel)
qed

lemma length_frames:
  "length (concat (map (\<lambda>n. [Putchar CHR '' '', Putchar (g n), Putchar CHR '' '', Fflush,
      Putchar CHR 0x0D]) [0..<k])) = 5 * k"
  by (induction k) simp_all

lemma Spinner_call_glyphs:
  assumes "Spinner.spin_chars s = [CHR ''/'', CHR ''-'', CHR 0x5C, CHR ''|'']"
  shows "Spinner_call t s =
     (if Spinner.period s - (seconds_of t - seconds_of (Spinner.last s)) < 1 / 1000
      then Inr (s\<lparr>Spinner.now := t, Spinner.spinIndex := Spinner.spinIndex s + 1, Spinner.last := t\<rparr>,
                [Putchar CHR '' '',
                 Putchar ([CHR ''/'', CHR ''-'', CHR 0x5C, CHR ''|''] ! (unat (Spinner.spinIndex s) mod 4)),
                 Putchar CHR '' '', Fflush, Putchar CHR 0x0D])
      else Inr (s\<lparr>Spinner.now := t\<rparr>, []))"
proof -
  have "unat (Spinner.spinIndex s) mod 4 < length [CHR ''/'', CHR ''-'', CHR 0x5C, CHR ''|'']"
    by simp
  then show ?thesis
    using assms
    by (simp add: Spinner_call_def index_mod_length_def string_subscript_def Let_def
        timespec_diff_seconds unat_mod4)
qed

lemma Spinner_polls_frames:
  assumes "Spinner.spin_chars s = [CHR ''/'', CHR ''-'', CHR 0x5C, CHR ''|'']"
    and "Spinner.spinIndex s = word_of_nat m"
  shows "\<exists>s' k. Spinner_polls ts s =
           Inr (s', concat (map (\<lambda>n. [Putchar CHR '' '',
                     Putchar ([CHR ''/'', CHR ''-'', CHR 0x5C, CHR ''|''] ! (n mod 4)),
                     Putchar CHR '' '', Fflush, Putchar CHR 0x0D]) [m..<m + k])) \<and>
           Spinner.spinIndex s' = word_of_nat (m + k) \<and>
           Spinner.spin_chars s' = [CHR ''/'', CHR ''-'', CHR 0x5C, CHR ''|'']"
  using assms
proof (induction ts arbitrary: s m)
  case Nil
  have "Spinner_polls [] s = Inr (s, concat (map (\<lambda>n. [Putchar CHR '' '',
                     Putchar ([CHR ''/'', CHR ''-'', CHR 0x5C, CHR ''|''] ! (n mod 4)),
                     Putchar CHR '' '', Fflush, Putchar CHR 0x0D]) [m..<m + 0]))"
    by simp
  then show ?case using Nil.prems by (metis add_0_right)
next
  case (Cons t ts)
  let ?G = "[CHR ''/'', CHR ''-'', CHR 0x5C, CHR ''|'']"
  let ?frame = "\<lambda>n. [Putchar CHR '' '', Putchar (?G ! (n mod 4)),
                     Putchar CHR '' '', Fflush, Putchar CHR 0x0D]"
  show ?case
  proof (cases "Spinner.period s - (seconds_of t - seconds_of (Spinner.last s)) < 1 / 1000")
    case True
    let ?s1 = "s\<lparr>Spinner.now := t, Spinner.spinIndex := Spinner.spinIndex s + 1,
                  Spinner.last := t\<rparr>"
    have call: "Spinner_call t s = Inr (?s1, ?frame m)"
      using True Cons.prems by (simp add: Spinner_call_glyphs word_of_nat_mod4)
    have "Spinner.spin_chars ?s1 = ?G" using Cons.prems by simp
    moreover have "Spinner.spinIndex ?s1 = word_of_nat (Suc m)" using Cons.prems by simp
    ultimately obtain s' k where
      rest: "Spinner_polls ts ?s1 = Inr (s', concat (map ?frame [Suc m..<Suc m + k]))"
      and fin: "Spinner.spinIndex s' = word_of_nat (Suc m + k)" "Spinner.spin_chars s' = ?G"
      using Cons.IH [of ?s1 "Suc m"] by blast
    have "[m..<m + Suc k] = m # [Suc m..<Suc m + k]"
      by (simp add: upt_conv_Cons)
    then have "concat (map ?frame [m..<m + Suc k]) = ?frame m @ concat (map ?frame [Suc m..<Suc m + k])"
      by simp
    then have "Spinner_polls (t # ts) s = Inr (s', concat (map ?frame [m..<m + Suc k]))"
      using call rest by simp
    moreover have "Spinner.spinIndex s' = word_of_nat (m + Suc k)" using fin by simp
    ultimately show ?thesis using fin(2) by blast
  next
    case False
    let ?s1 = "s\<lparr>Spinner.now := t\<rparr>"
    have call: "Spinner_call t s = Inr (?s1, [])"
      using False Cons.prems by (simp add: Spinner_call_glyphs)
    have "Spinner.spin_chars ?s1 = ?G" "Spinner.spinIndex ?s1 = word_of_nat m"
      using Cons.prems by simp_all
    then obtain s' k where
      rest: "Spinner_polls ts ?s1 = Inr (s', concat (map ?frame [m..<m + k]))"
      and fin: "Spinner.spinIndex s' = word_of_nat (m + k)" "Spinner.spin_chars s' = ?G"
      using Cons.IH [of ?s1 m] by blast
    have "Spinner_polls (t # ts) s = Inr (s', concat (map ?frame [m..<m + k]))"
      using call rest by simp
    then show ?thesis using fin by blast
  qed
qed

lemma Dotter_pattern_length: "length ''... .. .. .. .... .... .'' = 24"
  by simp

lemma dvd4_unat_mod24:
  assumes "4 dvd unat (w :: 64 word)"
  shows "4 dvd unat (w mod 24)" and "unat (w mod 24) + 3 < 24"
proof -
  have eq: "unat (w mod 24) = unat w mod 24" by (simp add: unat_mod_distrib)
  have "(4::nat) dvd 24" by simp
  then show d: "4 dvd unat (w mod 24)" using assms eq by (simp add: dvd_mod)
  have "unat w mod 24 < 24" by simp
  then show "unat (w mod 24) + 3 < 24" using d eq by presburger
qed

lemma unat_base_plus:
  assumes "unat (b :: 64 word) + 3 < 24"
  shows "unat (b + 1) = unat b + 1" "unat (b + 2) = unat b + 2" "unat (b + 3) = unat b + 3"
  using assms by (simp_all add: unat_word_ariths)

lemma dvd4_unat_plus4:
  assumes "4 dvd unat (w :: 64 word)"
  shows "4 dvd unat (w + 4)"
proof -
  have "unat (w + 4) = (unat w + 4) mod 2 ^ 64" by (simp add: unat_word_ariths)
  moreover have "(4::nat) dvd 2 ^ 64" by simp
  moreover have "4 dvd unat w + 4" using assms by simp
  ultimately show ?thesis by (simp add: dvd_mod)
qed

lemma dvd4_unat_times4: "4 dvd unat (4 * word_of_nat n :: 64 word)"
proof -
  have "unat (4 * word_of_nat n :: 64 word) = unat (word_of_nat (4 * n) :: 64 word)" by simp
  also have "\<dots> = (4 * n) mod 2 ^ 64" by (simp only: unat_of_nat len_of_numeral_defs) simp
  finally have "unat (4 * word_of_nat n :: 64 word) = (4 * n) mod 2 ^ 64" .
  moreover have "(4::nat) dvd 2 ^ 64" by simp
  ultimately show ?thesis by (simp add: dvd_mod)
qed

lemma Dotter_subscripts_pattern:
  assumes "Dotter.spin_chars d = ''... .. .. .. .... .... .''"
  shows "Dotter_subscripts d =
     Inr [Dotter.spinIndex d mod 24, Dotter.spinIndex d mod 24 + 1,
          Dotter.spinIndex d mod 24 + 2, Dotter.spinIndex d mod 24 + 3]"
  using assms by (simp add: Dotter_subscripts_def index_mod_length_def)

lemma Dotter_call_pattern:
  assumes "Dotter.spin_chars d = ''... .. .. .. .... .... .''"
    and "4 dvd unat (Dotter.spinIndex d)"
  shows "Dotter_call t d =
     (if Dotter.period d - (seconds_of t - seconds_of (Dotter.last d)) < 1 / 1000
      then Inr (d\<lparr>Dotter.now := t, Dotter.spinIndex := Dotter.spinIndex d + 4, Dotter.last := t\<rparr>,
                [Putchar CHR '' '',
                 Putchar (''... .. .. .. .... .... .'' ! (unat (Dotter.spinIndex d) mod 24)),
                 Putchar (''... .. .. .. .... .... .'' ! (unat (Dotter.spinIndex d) mod 24 + 1)),
                 Putchar (''... .. .. .. .... .... .'' ! (unat (Dotter.spinIndex d) mod 24 + 2)),
                 Putchar (''... .. .. .. .... .... .'' ! (unat (Dotter.spinIndex d) mod 24 + 3)),
                 Putchar CHR '' '', Fflush, Putchar CHR 0x0D])
      else Inr (d\<lparr>Dotter.now := t\<rparr>, []))"
proof -
  let ?P = "''... .. .. .. .... .... .''"
  let ?b = "Dotter.spinIndex d mod 24"
  have lt: "unat ?b + 3 < 24" using assms(2) by (rule dvd4_unat_mod24)
  have ub: "unat ?b = unat (Dotter.spinIndex d) mod 24" by (simp add: unat_mod_distrib)
  have r0: "string_subscript ?P ?b = Inr (?P ! unat ?b)"
    and r1: "string_subscript ?P (?b + 1) = Inr (?P ! (unat ?b + 1))"
    and r2: "string_subscript ?P (?b + 2) = Inr (?P ! (unat ?b + 2))"
    and r3: "string_subscript ?P (?b + 3) = Inr (?P ! (unat ?b + 3))"
    using lt unat_base_plus [OF lt]
    by (simp_all only: string_subscript_def Dotter_pattern_length) simp_all
  have "read_all ?P [?b, ?b + 1, ?b + 2, ?b + 3] =
          Inr [?P ! unat ?b, ?P ! (unat ?b + 1), ?P ! (unat ?b + 2), ?P ! (unat ?b + 3)]"
    by (simp only: read_all.simps r0 r1 r2 r3 sum.case)
  then show ?thesis
    using assms(1) Dotter_subscripts_pattern [of "d\<lparr>Dotter.now := t\<rparr>"]
    by (simp add: Dotter_call_def Let_def timespec_diff_seconds ub del: nth_Cons_numeral)
qed

lemma unat_dvd4_times4:
  assumes "4 dvd unat (w :: 64 word)"
  shows "\<exists>n. w = 4 * word_of_nat n"
proof -
  from assms obtain k where k: "unat w = 4 * k" by (auto simp: dvd_def)
  have "w = word_of_nat (unat w)" by simp
  also have "\<dots> = 4 * word_of_nat k" by (simp only: k) simp
  finally show ?thesis by blast
qed

lemma Dotter_polls_reach:
  assumes "Dotter.spin_chars d = ''... .. .. .. .... .... .''"
    and "4 dvd unat (Dotter.spinIndex d)"
  shows "\<exists>d' out. Dotter_polls ts d = Inr (d', out) \<and>
           Dotter.spin_chars d' = ''... .. .. .. .... .... .'' \<and>
           4 dvd unat (Dotter.spinIndex d')"
  using assms
proof (induction ts arbitrary: d)
  case Nil
  then show ?case by simp
next
  case (Cons t ts)
  show ?case
  proof (cases "Dotter.period d - (seconds_of t - seconds_of (Dotter.last d)) < 1 / 1000")
    case True
    let ?d1 = "d\<lparr>Dotter.now := t, Dotter.spinIndex := Dotter.spinIndex d + 4,
                  Dotter.last := t\<rparr>"
    obtain out1 where call: "Dotter_call t d = Inr (?d1, out1)"
      using True Dotter_call_pattern [OF Cons.prems, of t] by simp
    have "Dotter.spin_chars ?d1 = ''... .. .. .. .... .... .''"
      using Cons.prems(1) by simp
    moreover have "4 dvd unat (Dotter.spinIndex ?d1)"
      using dvd4_unat_plus4 [OF Cons.prems(2)] by simp
    ultimately obtain d' out2 where "Dotter_polls ts ?d1 = Inr (d', out2)"
      "Dotter.spin_chars d' = ''... .. .. .. .... .... .''" "4 dvd unat (Dotter.spinIndex d')"
      using Cons.IH [of ?d1] by blast
    then show ?thesis using call by simp
  next
    case False
    let ?d1 = "d\<lparr>Dotter.now := t\<rparr>"
    have call: "Dotter_call t d = Inr (?d1, [])"
      using False Dotter_call_pattern [OF Cons.prems, of t] by simp
    have "Dotter.spin_chars ?d1 = ''... .. .. .. .... .... .''" "4 dvd unat (Dotter.spinIndex ?d1)"
      using Cons.prems by simp_all
    then obtain d' out2 where "Dotter_polls ts ?d1 = Inr (d', out2)"
      "Dotter.spin_chars d' = ''... .. .. .. .... .... .''" "4 dvd unat (Dotter.spinIndex d')"
      using Cons.IH [of ?d1] by blast
    then show ?thesis using call by simp
  qed
qed

lemma Dotter_polls_init:
  "\<exists>d out n. Dotter_polls ts (Dotter_init f t0 junk) = Inr (d, out) \<and>
     Dotter.spin_chars d = ''... .. .. .. .... .... .'' \<and>
     Dotter.spinIndex d = 4 * word_of_nat n"
proof -
  have "Dotter.spin_chars (Dotter_init f t0 junk) = ''... .. .. .. .... .... .''"
    and "4 dvd unat (Dotter.spinIndex (Dotter_init f t0 junk))"
    by (simp_all add: Dotter_init_def)
  from Dotter_polls_reach [OF this, of ts] show ?thesis
    using unat_dvd4_times4 by blast
qed

section \<open>Properties of binary64 rounding\<close>

lemma pow2_pos: "0 < pow2 e"
  by (simp add: pow2_def)

lemma pow2_Suc: "pow2 (e + 1) = 2 * pow2 e"
proof (cases "0 \<le> e")
  case True
  then show ?thesis by (simp add: pow2_def nat_add_distrib)
next
  case False
  then have "nat (- e) = Suc (nat (- (e + 1)))" by simp
  then show ?thesis using False by (simp add: pow2_def)
qed

lemma pow2_add_nat: "pow2 (e + int k) = 2 ^ k * pow2 e"
proof (induction k)
  case 0
  show ?case by simp
next
  case (Suc k)
  have "pow2 (e + int (Suc k)) = pow2 (e + int k + 1)"
    by (simp add: algebra_simps)
  then show ?case using Suc pow2_Suc [of "e + int k"] by simp
qed

lemma pow2_mono:
  assumes "a \<le> b"
  shows "pow2 a \<le> pow2 b"
proof -
  have "b = a + int (nat (b - a))" using assms by simp
  then have "pow2 b = 2 ^ nat (b - a) * pow2 a"
    using pow2_add_nat [of a "nat (b - a)"] by simp
  moreover have "(1::real) \<le> 2 ^ nat (b - a)" by simp
  ultimately show ?thesis
    using pow2_pos [of a] by (simp add: mult_le_cancel_right1)
qed

lemma bitlen_pos:
  assumes "0 < n"
  shows "0 < bitlen n"
proof (rule ccontr)
  assume "\<not> 0 < bitlen n"
  then have "nat (bitlen n) = 0" by simp
  then show False using bitlen_bounds [OF assms] by auto
qed

lemma round_half_even_error: "\<bar>real_of_int (round_half_even m) - m\<bar> \<le> 1 / 2"
proof -
  have "real_of_int \<lfloor>m\<rfloor> \<le> m" "m < real_of_int \<lfloor>m\<rfloor> + 1"
    by linarith+
  then show ?thesis
    by (auto simp: round_half_even_def Let_def)
qed

lemma ilog2_bounds:
  assumes "0 < x"
  shows "pow2 (ilog2 x) \<le> x \<and> x < pow2 (ilog2 x + 1)"
proof (cases "1 \<le> x")
  case True
  let ?n = "\<lfloor>x\<rfloor>"
  have n: "0 < ?n" using True by simp
  have b: "2 ^ nat (bitlen ?n - 1) \<le> ?n \<and> ?n < 2 ^ nat (bitlen ?n)"
    using bitlen_bounds [OF n] .
  have bl: "0 < bitlen ?n" using n by (rule bitlen_pos)
  have lo: "real_of_int (2 ^ nat (bitlen ?n - 1)) \<le> x"
    using b by (meson le_floor_iff)
  have "?n + 1 \<le> 2 ^ nat (bitlen ?n)" using b by simp
  then have "real_of_int (?n + 1) \<le> real_of_int (2 ^ nat (bitlen ?n))"
    by (rule of_int_le_iff [THEN iffD2])
  moreover have "x < real_of_int (?n + 1)" by simp
  ultimately have hi: "x < real_of_int (2 ^ nat (bitlen ?n))" by linarith
  show ?thesis
    using True lo hi bl by (simp add: ilog2_def pow2_def)
next
  case False
  let ?c = "\<lceil>1 / x\<rceil>"
  have x1: "x < 1" using False by simp
  have r: "1 < 1 / x" using assms x1 by simp
  have c2: "2 \<le> ?c" using r by (simp add: le_ceiling_iff)
  then have c: "0 < ?c - 1" by simp
  let ?k = "bitlen (?c - 1)"
  have b: "2 ^ nat (?k - 1) \<le> ?c - 1 \<and> ?c - 1 < 2 ^ nat ?k"
    using bitlen_bounds [OF c] .
  have kpos: "0 < ?k" using c by (rule bitlen_pos)
  have "?c \<le> 2 ^ nat ?k" using b by simp
  then have "real_of_int ?c \<le> real_of_int (2 ^ nat ?k)"
    by (rule of_int_le_iff [THEN iffD2])
  moreover have "1 / x \<le> real_of_int ?c" by (rule le_of_int_ceiling)
  ultimately have "1 / x \<le> real_of_int (2 ^ nat ?k)" by (rule order_trans [rotated])
  then have "1 / x \<le> 2 ^ nat ?k" by simp
  then have lo: "1 / 2 ^ nat ?k \<le> x"
    using assms by (simp add: field_simps)
  have "real_of_int (2 ^ nat (?k - 1)) \<le> real_of_int (?c - 1)"
    using b by (intro of_int_le_iff [THEN iffD2]) simp
  moreover have "real_of_int (?c - 1) < 1 / x"
    using of_int_ceiling_diff_one_le [of "1 / x"] ceiling_correct [of "1 / x"] by simp
  ultimately have "real_of_int (2 ^ nat (?k - 1)) < 1 / x" by (rule order_le_less_trans)
  then have "2 ^ nat (?k - 1) < 1 / x" by simp
  then have hi: "x < 1 / 2 ^ nat (?k - 1)"
    using assms by (simp add: field_simps)
  have e: "ilog2 x = - ?k" using False by (simp add: ilog2_def)
  have "pow2 (- ?k) = 1 / 2 ^ nat ?k" using kpos by (simp add: pow2_def)
  moreover have "pow2 (- ?k + 1) = 1 / 2 ^ nat (?k - 1)"
  proof (cases "?k = 1")
    case True
    then show ?thesis by (simp add: pow2_def)
  next
    case False
    then have "\<not> 0 \<le> - ?k + 1" using kpos by simp
    moreover have "nat (- (- ?k + 1)) = nat (?k - 1)" by simp
    ultimately show ?thesis by (simp add: pow2_def)
  qed
  ultimately show ?thesis using lo hi e by simp
qed

lemma b64_round_error:
  assumes "b64_round x = Finite y"
  shows "\<bar>y - x\<bar> \<le> pow2 (max (ilog2 \<bar>x\<bar>) (- 1022) - 52) / 2"
proof (cases "x = 0")
  case True
  then show ?thesis using assms pow2_pos [of "max (ilog2 \<bar>x\<bar>) (- 1022) - 52"]
    by (simp add: b64_round_def)
next
  case False
  let ?q = "pow2 (max (ilog2 \<bar>x\<bar>) (- 1022) - 52)"
  have q: "0 < ?q" by (rule pow2_pos)
  have y: "y = real_of_int (round_half_even (x / ?q)) * ?q"
    using assms False by (simp add: b64_round_def Let_def split: if_splits)
  have "y - x = (real_of_int (round_half_even (x / ?q)) - x / ?q) * ?q"
    using q by (simp add: y field_simps)
  then have "\<bar>y - x\<bar> = \<bar>real_of_int (round_half_even (x / ?q)) - x / ?q\<bar> * ?q"
    using q by (simp add: abs_mult)
  also have "\<dots> \<le> 1 / 2 * ?q"
    using round_half_even_error [of "x / ?q"] q by (intro mult_right_mono) simp_all
  finally show ?thesis by simp
qed

lemma b64_round_relative_error:
  assumes "b64_round x = Finite y" and "pow2 (- 1022) \<le> \<bar>x\<bar>"
  shows "\<bar>y - x\<bar> \<le> \<bar>x\<bar> / 2 ^ 53"
proof -
  have xpos: "0 < \<bar>x\<bar>" using assms(2) pow2_pos [of "- 1022"] by linarith
  let ?e = "ilog2 \<bar>x\<bar>"
  have b: "pow2 ?e \<le> \<bar>x\<bar>" "\<bar>x\<bar> < pow2 (?e + 1)"
    using ilog2_bounds [OF xpos] by simp_all
  have "- 1022 \<le> ?e"
  proof (rule ccontr)
    assume "\<not> - 1022 \<le> ?e"
    then have "?e + 1 \<le> - 1022" by simp
    then have "pow2 (?e + 1) \<le> pow2 (- 1022)"
      by (rule pow2_mono)
    then show False using b(2) assms(2) by linarith
  qed
  then have m: "max ?e (- 1022) = ?e" by simp
  have "pow2 ?e = 2 ^ 52 * pow2 (?e - 52)"
    using pow2_add_nat [of "?e - 52" 52] by simp
  then have "pow2 (?e - 52) / 2 = pow2 ?e / 2 ^ 53" by simp
  moreover have "pow2 ?e / 2 ^ 53 \<le> \<bar>x\<bar> / 2 ^ 53"
    using b(1) by (simp add: divide_right_mono)
  ultimately show ?thesis
    using b64_round_error [OF assms(1)] m by simp
qed

lemma ilog2_less:
  assumes "0 < x" and "x < pow2 k"
  shows "ilog2 x < k"
proof (rule ccontr)
  assume "\<not> ilog2 x < k"
  then have "pow2 k \<le> pow2 (ilog2 x)" by (simp add: pow2_mono)
  then show False using ilog2_bounds [OF assms(1)] assms(2) by linarith
qed

lemma b64_round_bounded:
  assumes "\<bar>x\<bar> < pow2 k" and "- 1021 \<le> k" and "k \<le> 1023"
  shows "\<exists>y. b64_round x = Finite y \<and> \<bar>y - x\<bar> \<le> pow2 (k - 54)"
proof (cases "x = 0")
  case True
  then show ?thesis using pow2_pos [of "k - 54"] by (simp add: b64_round_def)
next
  case False
  let ?e = "max (ilog2 \<bar>x\<bar>) (- 1022)"
  have "ilog2 \<bar>x\<bar> < k" using False assms(1) by (intro ilog2_less) simp_all
  then have e: "?e \<le> k - 1" using assms(2) by simp
  then have "?e \<le> 1022" using assms(3) by linarith
  then have fin: "\<not> (1024 \<le> ?e \<or> (?e = 1023 \<and>
      \<bar>round_half_even (x / pow2 (?e - 52))\<bar> = 9007199254740992))"
    by linarith
  obtain y where y: "b64_round x = Finite y"
    using False fin by (simp add: b64_round_def Let_def)
  have "?e - 52 \<le> k - 53" using e by linarith
  then have "pow2 (?e - 52) \<le> pow2 (k - 53)" by (rule pow2_mono)
  moreover have "pow2 (k - 53) = 2 * pow2 (k - 54)"
    using pow2_Suc [of "k - 54"] by simp
  ultimately have "\<bar>y - x\<bar> \<le> pow2 (k - 54)"
    using b64_round_error [OF y] by simp
  then show ?thesis using y by blast
qed

lemma round_half_even_of_int: "round_half_even (real_of_int k) = k"
  by (simp add: round_half_even_def)

lemma b64_of_int_exact:
  assumes "\<bar>n\<bar> < 2 ^ 53"
  shows "b64_of_int n = Finite (real_of_int n)"
proof (cases "n = 0")
  case True
  then show ?thesis by (simp add: b64_of_int_def b64_round_def)
next
  case False
  let ?x = "real_of_int n"
  let ?e = "ilog2 \<bar>?x\<bar>"
  have pos: "0 < \<bar>?x\<bar>" using False by simp
  have "\<bar>?x\<bar> < 2 ^ 53"
    using assms by (metis of_int_abs of_int_less_numeral_power_cancel_iff)
  then have "\<bar>?x\<bar> < pow2 53" by (simp add: pow2_def)
  then have hi: "?e < 53" using pos by (intro ilog2_less)
  have "1 \<le> \<bar>?x\<bar>" using False by (simp add: of_int_abs [symmetric] del: of_int_abs)
  then have "pow2 0 \<le> \<bar>?x\<bar>" by (simp add: pow2_def)
  moreover have "\<bar>?x\<bar> < pow2 (?e + 1)" using ilog2_bounds [OF pos] by simp
  ultimately have "pow2 0 < pow2 (?e + 1)" by linarith
  then have lo: "0 \<le> ?e"
    using pow2_mono [of "?e + 1" 0] by (cases "0 \<le> ?e") auto
  then have m: "max ?e (- 1022) = ?e" by simp
  have "52 - ?e = int (nat (52 - ?e))" using hi by simp
  then have "pow2 (?e - 52 + int (nat (52 - ?e))) = pow2 0" by simp
  then have q: "2 ^ nat (52 - ?e) * pow2 (?e - 52) = 1"
    using pow2_add_nat [of "?e - 52" "nat (52 - ?e)"] by (simp add: pow2_def)
  have qpos: "0 < pow2 (?e - 52)" by (rule pow2_pos)
  have "?x / pow2 (?e - 52) = ?x * 2 ^ nat (52 - ?e)"
    using q qpos by (simp add: field_simps)
  also have "\<dots> = real_of_int (n * 2 ^ nat (52 - ?e))" by simp
  finally have "round_half_even (?x / pow2 (?e - 52)) = n * 2 ^ nat (52 - ?e)"
    by (simp only: round_half_even_of_int)
  moreover have "real_of_int (n * 2 ^ nat (52 - ?e)) * pow2 (?e - 52) = ?x"
    using q by (simp add: mult.assoc)
  ultimately show ?thesis
    using False hi m by (simp add: b64_of_int_def b64_round_def Let_def)
qed

section \<open>The rate gate in binary64\<close>

lemma b64_round_1E9: "b64_round 1000000000 = Finite 1000000000"
  using b64_of_int_exact [of 1000000000] by (simp add: b64_of_int_def)

lemma b64_round_1E_3: "b64_round (1 / 1000) = Finite (1152921504606847 / 1152921504606846976)"
  by code_simp

lemma gate_b64_near_exact:
  assumes t: "0 \<le> tv_nsec t" "tv_nsec t < 1000000000"
    and l: "0 \<le> tv_nsec l" "tv_nsec l < 1000000000"
    and el: "0 \<le> seconds_of t - seconds_of l" "seconds_of t - seconds_of l \<le> 1"
    and p: "\<bar>p\<bar> \<le> 2"
  shows
    "(p - (seconds_of t - seconds_of l) < 1 / 1000 - 1 / 10 ^ 15 \<longrightarrow>
        b64_less (b64_sub (Finite p) (timespec_diff_b64 t l)) (b64_round (1 / 1000))) \<and>
     (1 / 1000 + 1 / 10 ^ 15 < p - (seconds_of t - seconds_of l) \<longrightarrow>
        \<not> b64_less (b64_sub (Finite p) (timespec_diff_b64 t l)) (b64_round (1 / 1000)))"
proof -
  define ds where "ds = tv_sec t - tv_sec l"
  define dn where "dn = tv_nsec t - tv_nsec l"
  define a where "a = real_of_int dn / 1000000000"
  define E where "E = seconds_of t - seconds_of l"
  have E: "E = real_of_int ds + a"
    by (simp add: E_def ds_def dn_def a_def seconds_of_def field_simps)
  have dn: "- 1000000000 < dn" "dn < 1000000000"
    using t l by (simp_all add: dn_def)
  then have a: "- 1 < a" "a < 1"
    by (simp_all add: a_def)
  have "- 1 < real_of_int ds" "real_of_int ds < 2"
    using el a E unfolding E_def [symmetric] by linarith+
  then have ds: "0 \<le> ds" "ds \<le> 1" by linarith+
  have fs: "b64_of_int ds = Finite (real_of_int ds)"
    using ds by (intro b64_of_int_exact) simp
  have fn: "b64_of_int dn = Finite (real_of_int dn)"
    using dn by (intro b64_of_int_exact) simp
  have p0: "pow2 0 = 1" and p1: "pow2 1 = 2" and p2: "pow2 2 = 4"
    and p54: "pow2 (0 - 54) = 1 / 18014398509481984"
    and p53: "pow2 (1 - 54) = 1 / 9007199254740992"
    and p52: "pow2 (2 - 54) = 1 / 4503599627370496"
    by (simp_all add: pow2_def)
  have el': "0 \<le> real_of_int ds + a" "real_of_int ds + a \<le> 1"
    using el E by (simp_all add: E_def)
  have "\<bar>a\<bar> < pow2 0" using a unfolding p0 by linarith
  then obtain A where A: "b64_round a = Finite A" and "\<bar>A - a\<bar> \<le> pow2 (0 - 54)"
    using b64_round_bounded [of a 0] by auto
  then have Ae: "A - a \<le> 1 / 18014398509481984" "a - A \<le> 1 / 18014398509481984"
    unfolding p54 by linarith+
  have "\<bar>real_of_int ds + A\<bar> < 2"
    using Ae el' by linarith
  then have "\<bar>real_of_int ds + A\<bar> < pow2 1" by (simp only: p1)
  then obtain T where T: "b64_round (real_of_int ds + A) = Finite T"
    and "\<bar>T - (real_of_int ds + A)\<bar> \<le> pow2 (1 - 54)"
    using b64_round_bounded [of "real_of_int ds + A" 1] by auto
  then have Te: "T - (real_of_int ds + A) \<le> 1 / 9007199254740992" "real_of_int ds + A - T \<le> 1 / 9007199254740992"
    unfolding p53 by linarith+
  have "\<bar>p - T\<bar> < 4"
    using Te Ae el' p by linarith
  then have "\<bar>p - T\<bar> < pow2 2" by (simp only: p2)
  then obtain D where D: "b64_round (p - T) = Finite D"
    and "\<bar>D - (p - T)\<bar> \<le> pow2 (2 - 54)"
    using b64_round_bounded [of "p - T" 2] by auto
  then have De: "D - (p - T) \<le> 1 / 4503599627370496" "p - T - D \<le> 1 / 4503599627370496"
    unfolding p52 by linarith+
  have diff: "timespec_diff_b64 t l = Finite T"
    using fs fn A T
    by (simp add: timespec_diff_b64_def ds_def [symmetric] dn_def [symmetric] b64_round_1E9
        a_def [symmetric])
  have gate: "b64_less (b64_sub (Finite p) (timespec_diff_b64 t l)) (b64_round (1 / 1000)) \<longleftrightarrow>
      D < 1152921504606847 / 1152921504606846976"
    by (simp only: diff b64_sub.simps D b64_round_1E_3 b64_less.simps)
  have close: "D - (p - E) \<le> 7 / 18014398509481984" "p - E - D \<le> 7 / 18014398509481984"
    using Ae Te De E by linarith+
  have ten: "(1::real) / 10 ^ 15 = 1 / 1000000000000000" by simp
  show ?thesis
    unfolding gate E_def [symmetric] ten
    using close by (intro conjI impI) linarith+
qed

lemma b64_round_1E_6: "b64_round (1 / 1000000) = Finite (4722366482869645 / 4722366482869645213696)"
  by code_simp

lemma Dotter64_init_period:
  assumes "1 \<le> f" and "f \<le> 2147483647"
  shows "\<exists>p. Dotter64.period (Dotter64_init f t0 junk) = Finite p \<and> \<bar>p\<bar> \<le> 2"
proof -
  have one: "b64_of_int 1 = Finite 1"
    using b64_of_int_exact [of 1] by simp
  have f: "b64_of_int f = Finite (real_of_int f)"
    using assms by (intro b64_of_int_exact) simp
  have x: "0 < 1 / real_of_int f" "1 / real_of_int f \<le> 1"
    using assms by simp_all
  then have "\<bar>1 / real_of_int f\<bar> < 2" by linarith
  then have "\<bar>1 / real_of_int f\<bar> < pow2 1" by (simp only: pow2_def) simp
  then obtain p where p: "b64_round (1 / real_of_int f) = Finite p"
    and "\<bar>p - 1 / real_of_int f\<bar> \<le> pow2 (1 - 54)"
    using b64_round_bounded [of "1 / real_of_int f" 1] by auto
  then have "\<bar>p - 1 / real_of_int f\<bar> \<le> 1" by (simp add: pow2_def)
  then have "\<bar>p\<bar> \<le> 2" using x by linarith
  moreover have "Dotter64.period (Dotter64_init f t0 junk) = Finite p"
    using assms one f p by (simp add: Dotter64_init_def)
  ultimately show ?thesis by blast
qed

lemma Spinner64_init_period:
  assumes "1 \<le> f" and "f \<le> 2147483647"
  shows "\<exists>p. Spinner64.period (Spinner64_init f t0 junk) = Finite p \<and> \<bar>p\<bar> \<le> 2"
proof -
  let ?eps = "4722366482869645 / 4722366482869645213696 :: real"
  have one: "b64_of_int 1 = Finite 1"
    using b64_of_int_exact [of 1] by simp
  have f: "b64_of_int f = Finite (real_of_int f)"
    using assms by (intro b64_of_int_exact) simp
  have rf: "1 \<le> real_of_int f" "real_of_int f \<le> 2147483647"
    using assms by simp_all
  then have "\<bar>real_of_int f + ?eps\<bar> < 4294967296" by simp
  then have "\<bar>real_of_int f + ?eps\<bar> < pow2 32" by (simp add: pow2_def)
  then obtain s where s: "b64_round (real_of_int f + ?eps) = Finite s"
    and "\<bar>s - (real_of_int f + ?eps)\<bar> \<le> pow2 (32 - 54)"
    using b64_round_bounded [of "real_of_int f + ?eps" 32] by auto
  then have "\<bar>s - (real_of_int f + ?eps)\<bar> \<le> 1 / 4194304" by (simp add: pow2_def)
  then have s1: "3 / 4 \<le> s" using rf by linarith
  then have x: "0 < 1 / s" "1 / s \<le> 4 / 3"
    by (simp_all add: field_simps)
  then have "\<bar>1 / s\<bar> < 2" by linarith
  then have "\<bar>1 / s\<bar> < pow2 1" by (simp only: pow2_def) simp
  then obtain p where p: "b64_round (1 / s) = Finite p"
    and "\<bar>p - 1 / s\<bar> \<le> pow2 (1 - 54)"
    using b64_round_bounded [of "1 / s" 1] by auto
  then have "\<bar>p - 1 / s\<bar> \<le> 1 / 3" by (simp add: pow2_def)
  then have "\<bar>p\<bar> \<le> 2" using x by linarith
  moreover have "Spinner64.period (Spinner64_init f t0 junk) = Finite p"
    using s1 one f s p by (simp add: Spinner64_init_def b64_round_1E_6)
  ultimately show ?thesis by blast
qed

lemma Spinner64_call_glyphs:
  assumes "Spinner64.spin_chars s = [CHR ''/'', CHR ''-'', CHR 0x5C, CHR ''|'']"
  shows "Spinner64_call t s =
     (if b64_less (b64_sub (Spinner64.period s) (timespec_diff_b64 t (Spinner64.last s)))
           (b64_round (1 / 1000))
      then Inr (s\<lparr>Spinner64.now := t, Spinner64.spinIndex := Spinner64.spinIndex s + 1,
                    Spinner64.last := t\<rparr>,
                [Putchar CHR '' '',
                 Putchar ([CHR ''/'', CHR ''-'', CHR 0x5C, CHR ''|''] !
                          (unat (Spinner64.spinIndex s) mod 4)),
                 Putchar CHR '' '', Fflush, Putchar CHR 0x0D])
      else Inr (s\<lparr>Spinner64.now := t\<rparr>, []))"
proof -
  have "unat (Spinner64.spinIndex s) mod 4 < length [CHR ''/'', CHR ''-'', CHR 0x5C, CHR ''|'']"
    by simp
  then show ?thesis
    using assms
    by (simp add: Spinner64_call_def index_mod_length_def string_subscript_def Let_def unat_mod4)
qed

lemma Dotter64_call_pattern:
  assumes "Dotter64.spin_chars d = ''... .. .. .. .... .... .''"
    and "4 dvd unat (Dotter64.spinIndex d)"
  shows "Dotter64_call t d =
     (if b64_less (b64_sub (Dotter64.period d) (timespec_diff_b64 t (Dotter64.last d)))
           (b64_round (1 / 1000))
      then Inr (d\<lparr>Dotter64.now := t, Dotter64.spinIndex := Dotter64.spinIndex d + 4,
                    Dotter64.last := t\<rparr>,
                [Putchar CHR '' '',
                 Putchar (''... .. .. .. .... .... .'' ! (unat (Dotter64.spinIndex d) mod 24)),
                 Putchar (''... .. .. .. .... .... .'' ! (unat (Dotter64.spinIndex d) mod 24 + 1)),
                 Putchar (''... .. .. .. .... .... .'' ! (unat (Dotter64.spinIndex d) mod 24 + 2)),
                 Putchar (''... .. .. .. .... .... .'' ! (unat (Dotter64.spinIndex d) mod 24 + 3)),
                 Putchar CHR '' '', Fflush, Putchar CHR 0x0D])
      else Inr (d\<lparr>Dotter64.now := t\<rparr>, []))"
proof -
  let ?P = "''... .. .. .. .... .... .''"
  let ?b = "Dotter64.spinIndex d mod 24"
  have lt: "unat ?b + 3 < 24" using assms(2) by (rule dvd4_unat_mod24)
  have ub: "unat ?b = unat (Dotter64.spinIndex d) mod 24" by (simp add: unat_mod_distrib)
  have r0: "string_subscript ?P ?b = Inr (?P ! unat ?b)"
    and r1: "string_subscript ?P (?b + 1) = Inr (?P ! (unat ?b + 1))"
    and r2: "string_subscript ?P (?b + 2) = Inr (?P ! (unat ?b + 2))"
    and r3: "string_subscript ?P (?b + 3) = Inr (?P ! (unat ?b + 3))"
    using lt unat_base_plus [OF lt]
    by (simp_all only: string_subscript_def Dotter_pattern_length) simp_all
  have reads: "read_all ?P [?b, ?b + 1, ?b + 2, ?b + 3] =
          Inr [?P ! unat ?b, ?P ! (unat ?b + 1), ?P ! (unat ?b + 2), ?P ! (unat ?b + 3)]"
    by (simp only: read_all.simps r0 r1 r2 r3 sum.case)
  have subs: "Dotter64_subscripts (d\<lparr>Dotter64.now := t\<rparr>) = Inr [?b, ?b + 1, ?b + 2, ?b + 3]"
    using assms(1) by (simp add: Dotter64_subscripts_def index_mod_length_def)
  show ?thesis
    using assms(1) reads subs
    by (simp add: Dotter64_call_def Let_def ub del: nth_Cons_numeral)
qed

lemma Spinner64_polls_reach:
  assumes "Spinner64.spin_chars s = [CHR ''/'', CHR ''-'', CHR 0x5C, CHR ''|'']"
  shows "\<exists>s' out. Spinner64_polls ts s = Inr (s', out) \<and>
           Spinner64.spin_chars s' = [CHR ''/'', CHR ''-'', CHR 0x5C, CHR ''|'']"
  using assms
proof (induction ts arbitrary: s)
  case Nil
  then show ?case by simp
next
  case (Cons t ts)
  have "\<exists>s1 out1. Spinner64_call t s = Inr (s1, out1) \<and>
          Spinner64.spin_chars s1 = [CHR ''/'', CHR ''-'', CHR 0x5C, CHR ''|'']"
    using Cons.prems by (simp add: Spinner64_call_glyphs)
  then obtain s1 out1 where call: "Spinner64_call t s = Inr (s1, out1)"
    and keep: "Spinner64.spin_chars s1 = [CHR ''/'', CHR ''-'', CHR 0x5C, CHR ''|'']"
    by blast
  from Cons.IH [OF keep] obtain s' out2 where "Spinner64_polls ts s1 = Inr (s', out2)"
    "Spinner64.spin_chars s' = [CHR ''/'', CHR ''-'', CHR 0x5C, CHR ''|'']"
    by blast
  then show ?case using call by simp
qed

lemma Spinner64_polls_init:
  "\<exists>s out. Spinner64_polls ts (Spinner64_init f t0 junk) = Inr (s, out) \<and>
     Spinner64.spin_chars s = [CHR ''/'', CHR ''-'', CHR 0x5C, CHR ''|'']"
  by (rule Spinner64_polls_reach) (simp add: Spinner64_init_def)

lemma Dotter64_polls_reach:
  assumes "Dotter64.spin_chars d = ''... .. .. .. .... .... .''"
    and "4 dvd unat (Dotter64.spinIndex d)"
  shows "\<exists>d' out. Dotter64_polls ts d = Inr (d', out) \<and>
           Dotter64.spin_chars d' = ''... .. .. .. .... .... .'' \<and>
           4 dvd unat (Dotter64.spinIndex d')"
  using assms
proof (induction ts arbitrary: d)
  case Nil
  then show ?case by simp
next
  case (Cons t ts)
  have step: "4 dvd unat (Dotter64.spinIndex d + 4)"
    using Cons.prems(2) by (rule dvd4_unat_plus4)
  have "\<exists>d1 out1. Dotter64_call t d = Inr (d1, out1) \<and>
          Dotter64.spin_chars d1 = ''... .. .. .. .... .... .'' \<and>
          4 dvd unat (Dotter64.spinIndex d1)"
    using Cons.prems step by (simp add: Dotter64_call_pattern)
  then obtain d1 out1 where call: "Dotter64_call t d = Inr (d1, out1)"
    and keep: "Dotter64.spin_chars d1 = ''... .. .. .. .... .... .''"
      "4 dvd unat (Dotter64.spinIndex d1)"
    by blast
  from Cons.IH [OF keep] obtain d' out2 where "Dotter64_polls ts d1 = Inr (d', out2)"
    "Dotter64.spin_chars d' = ''... .. .. .. .... .... .''" "4 dvd unat (Dotter64.spinIndex d')"
    by blast
  then show ?case using call by simp
qed

lemma Dotter64_polls_init:
  "\<exists>d out n. Dotter64_polls ts (Dotter64_init f t0 junk) = Inr (d, out) \<and>
     Dotter64.spin_chars d = ''... .. .. .. .... .... .'' \<and>
     Dotter64.spinIndex d = 4 * word_of_nat n"
proof -
  have "Dotter64.spin_chars (Dotter64_init f t0 junk) = ''... .. .. .. .... .... .''"
    and "4 dvd unat (Dotter64.spinIndex (Dotter64_init f t0 junk))"
    by (simp_all add: Dotter64_init_def)
  from Dotter64_polls_reach [OF this, of ts] show ?thesis
    using unat_dvd4_times4 by blast
qed

text \<open>
  With frequency 0 the period of a Dotter is the quotient of 1 by zero, positive infinity,
  and no poll emits a frame.
\<close>

lemma b64_less_PlusInf_sub: "\<not> b64_less (b64_sub PlusInf x) c"
  by (cases x; cases c) simp_all

lemma Dotter64_frequency_0:
  "Dotter64.period (Dotter64_init 0 t0 junk) = PlusInf \<and>
   Dotter64_call t (Dotter64_init 0 t0 junk) =
     Inr ((Dotter64_init 0 t0 junk)\<lparr>Dotter64.now := t\<rparr>, [])"
proof -
  have "b64_of_int 1 = Finite 1"
    using b64_of_int_exact [of 1] by simp
  moreover have "b64_of_int 0 = Finite 0"
    by (simp add: b64_of_int_def b64_round_def)
  ultimately have inf: "Dotter64.period (Dotter64_init 0 t0 junk) = PlusInf"
    by (simp add: Dotter64_init_def)
  have "Dotter64.period ((Dotter64_init 0 t0 junk)\<lparr>Dotter64.now := t\<rparr>) = PlusInf"
    using inf by simp
  then have "Dotter64_call t (Dotter64_init 0 t0 junk) =
     Inr ((Dotter64_init 0 t0 junk)\<lparr>Dotter64.now := t\<rparr>, [])"
    by (simp only: Dotter64_call_def Let_def b64_less_PlusInf_sub if_False)
  then show ?thesis using inf by (intro conjI)
qed

text \<open>
  The rounding of the elapsed seconds depends on the two samples, not only on their
  distance: a Dotter of frequency 20 polled 49 ms after its last trigger is idle when
  both samples lie in the same second and emits a frame when a second begins in between.
\<close>

lemma Dotter64_gate_49ms:
  "\<not> b64_less
      (b64_sub (Dotter64.period (Dotter64_init 20 \<lparr>tv_sec = 100, tv_nsec = 0\<rparr> junk))
         (timespec_diff_b64 \<lparr>tv_sec = 100, tv_nsec = 49000000\<rparr> \<lparr>tv_sec = 100, tv_nsec = 0\<rparr>))
      (b64_round (1 / 1000)) \<and>
   b64_less
      (b64_sub (Dotter64.period (Dotter64_init 20 \<lparr>tv_sec = 100, tv_nsec = 980000000\<rparr> junk))
         (timespec_diff_b64 \<lparr>tv_sec = 101, tv_nsec = 29000000\<rparr>
            \<lparr>tv_sec = 100, tv_nsec = 980000000\<rparr>))
      (b64_round (1 / 1000))"
proof -
  have "\<not> b64_less
      (b64_sub (b64_div (b64_of_int 1) (b64_of_int 20))
         (timespec_diff_b64 \<lparr>tv_sec = 100, tv_nsec = 49000000\<rparr> \<lparr>tv_sec = 100, tv_nsec = 0\<rparr>))
      (b64_round (1 / 1000))"
    by code_simp
  moreover have "b64_less
      (b64_sub (b64_div (b64_of_int 1) (b64_of_int 20))
         (timespec_diff_b64 \<lparr>tv_sec = 101, tv_nsec = 29000000\<rparr>
            \<lparr>tv_sec = 100, tv_nsec = 980000000\<rparr>))
      (b64_round (1 / 1000))"
    by code_simp
  ultimately show ?thesis by (simp add: Dotter64_init_def)
qed

text \<open>
  C1. A poll of a Spinner or of a Dotter emits a frame exactly when the test
  \<^verbatim>\<open>period - timeElapsed < 1E-3\<close> holds as the source evaluates it: in binary64, with
  the seconds from the last trigger to the sample just read computed as
  \<^verbatim>\<open>(now.tv_sec - last.tv_sec) + (now.tv_nsec - last.tv_nsec) / 1E9\<close> and every
  operation rounded. A poll that emits a frame writes the whole frame, advances the frame
  index and stores the sample just read as the last trigger; any other poll writes
  nothing and changes only the sample read. The constructor stores the construction
  sample as the last trigger. For a period of at most two seconds and samples with
  nanoseconds in range that are at most one second apart, the test agrees with the exact
  comparison of the period minus the elapsed seconds against one millisecond whenever
  that difference is more than \<open>1 / 10 ^ 15\<close> away from one millisecond: below, the frame
  is emitted, so already slightly before the period has elapsed; above, it is not.
\<close>

theorem rate_gate_binary64:
  assumes "Spinner64.spin_chars s = [CHR ''/'', CHR ''-'', CHR 0x5C, CHR ''|'']"
    and "Dotter64.spin_chars d = ''... .. .. .. .... .... .''"
    and "Dotter64.spinIndex d = 4 * word_of_nat n"
  shows
    "Spinner64_call t s =
       (if b64_less (b64_sub (Spinner64.period s) (timespec_diff_b64 t (Spinner64.last s)))
             (b64_round (1 / 1000))
        then Inr (s\<lparr>Spinner64.now := t, Spinner64.spinIndex := Spinner64.spinIndex s + 1,
                      Spinner64.last := t\<rparr>,
                  [Putchar CHR '' '',
                   Putchar ([CHR ''/'', CHR ''-'', CHR 0x5C, CHR ''|''] !
                            (unat (Spinner64.spinIndex s) mod 4)),
                   Putchar CHR '' '', Fflush, Putchar CHR 0x0D])
        else Inr (s\<lparr>Spinner64.now := t\<rparr>, [])) \<and>
     Dotter64_call t d =
       (if b64_less (b64_sub (Dotter64.period d) (timespec_diff_b64 t (Dotter64.last d)))
             (b64_round (1 / 1000))
        then Inr (d\<lparr>Dotter64.now := t, Dotter64.spinIndex := Dotter64.spinIndex d + 4,
                      Dotter64.last := t\<rparr>,
                  [Putchar CHR '' '',
                   Putchar (''... .. .. .. .... .... .'' ! (unat (Dotter64.spinIndex d) mod 24)),
                   Putchar (''... .. .. .. .... .... .'' ! (unat (Dotter64.spinIndex d) mod 24 + 1)),
                   Putchar (''... .. .. .. .... .... .'' ! (unat (Dotter64.spinIndex d) mod 24 + 2)),
                   Putchar (''... .. .. .. .... .... .'' ! (unat (Dotter64.spinIndex d) mod 24 + 3)),
                   Putchar CHR '' '', Fflush, Putchar CHR 0x0D])
        else Inr (d\<lparr>Dotter64.now := t\<rparr>, [])) \<and>
     Spinner64.last (Spinner64_init f t0 junk) = t0 \<and>
     Dotter64.last (Dotter64_init f t0 junk) = t0 \<and>
     (Spinner64.period s = Finite p \<and> \<bar>p\<bar> \<le> 2 \<and>
      0 \<le> tv_nsec t \<and> tv_nsec t < 1000000000 \<and>
      0 \<le> tv_nsec (Spinner64.last s) \<and> tv_nsec (Spinner64.last s) < 1000000000 \<and>
      0 \<le> seconds_of t - seconds_of (Spinner64.last s) \<and>
      seconds_of t - seconds_of (Spinner64.last s) \<le> 1 \<longrightarrow>
        (p - (seconds_of t - seconds_of (Spinner64.last s)) < 1 / 1000 - 1 / 10 ^ 15 \<longrightarrow>
           b64_less (b64_sub (Spinner64.period s) (timespec_diff_b64 t (Spinner64.last s)))
             (b64_round (1 / 1000))) \<and>
        (1 / 1000 + 1 / 10 ^ 15 < p - (seconds_of t - seconds_of (Spinner64.last s)) \<longrightarrow>
           \<not> b64_less (b64_sub (Spinner64.period s) (timespec_diff_b64 t (Spinner64.last s)))
             (b64_round (1 / 1000)))) \<and>
     (Dotter64.period d = Finite q \<and> \<bar>q\<bar> \<le> 2 \<and>
      0 \<le> tv_nsec t \<and> tv_nsec t < 1000000000 \<and>
      0 \<le> tv_nsec (Dotter64.last d) \<and> tv_nsec (Dotter64.last d) < 1000000000 \<and>
      0 \<le> seconds_of t - seconds_of (Dotter64.last d) \<and>
      seconds_of t - seconds_of (Dotter64.last d) \<le> 1 \<longrightarrow>
        (q - (seconds_of t - seconds_of (Dotter64.last d)) < 1 / 1000 - 1 / 10 ^ 15 \<longrightarrow>
           b64_less (b64_sub (Dotter64.period d) (timespec_diff_b64 t (Dotter64.last d)))
             (b64_round (1 / 1000))) \<and>
        (1 / 1000 + 1 / 10 ^ 15 < q - (seconds_of t - seconds_of (Dotter64.last d)) \<longrightarrow>
           \<not> b64_less (b64_sub (Dotter64.period d) (timespec_diff_b64 t (Dotter64.last d)))
             (b64_round (1 / 1000))))"
proof -
  have d4: "4 dvd unat (Dotter64.spinIndex d)"
    using assms(3) dvd4_unat_times4 by simp
  have "Spinner64.last (Spinner64_init f t0 junk) = t0"
    by (simp add: Spinner64_init_def)
  moreover have "Dotter64.last (Dotter64_init f t0 junk) = t0"
    by (simp add: Dotter64_init_def)
  moreover have "Spinner64.period s = Finite p \<and> \<bar>p\<bar> \<le> 2 \<and>
      0 \<le> tv_nsec t \<and> tv_nsec t < 1000000000 \<and>
      0 \<le> tv_nsec (Spinner64.last s) \<and> tv_nsec (Spinner64.last s) < 1000000000 \<and>
      0 \<le> seconds_of t - seconds_of (Spinner64.last s) \<and>
      seconds_of t - seconds_of (Spinner64.last s) \<le> 1 \<longrightarrow>
        (p - (seconds_of t - seconds_of (Spinner64.last s)) < 1 / 1000 - 1 / 10 ^ 15 \<longrightarrow>
           b64_less (b64_sub (Spinner64.period s) (timespec_diff_b64 t (Spinner64.last s)))
             (b64_round (1 / 1000))) \<and>
        (1 / 1000 + 1 / 10 ^ 15 < p - (seconds_of t - seconds_of (Spinner64.last s)) \<longrightarrow>
           \<not> b64_less (b64_sub (Spinner64.period s) (timespec_diff_b64 t (Spinner64.last s)))
             (b64_round (1 / 1000)))"
  proof (rule impI, elim conjE)
    assume per: "Spinner64.period s = Finite p"
      and "\<bar>p\<bar> \<le> 2" "0 \<le> tv_nsec t" "tv_nsec t < 1000000000"
      "0 \<le> tv_nsec (Spinner64.last s)" "tv_nsec (Spinner64.last s) < 1000000000"
      "0 \<le> seconds_of t - seconds_of (Spinner64.last s)"
      "seconds_of t - seconds_of (Spinner64.last s) \<le> 1"
    then show "(p - (seconds_of t - seconds_of (Spinner64.last s)) < 1 / 1000 - 1 / 10 ^ 15 \<longrightarrow>
           b64_less (b64_sub (Spinner64.period s) (timespec_diff_b64 t (Spinner64.last s)))
             (b64_round (1 / 1000))) \<and>
        (1 / 1000 + 1 / 10 ^ 15 < p - (seconds_of t - seconds_of (Spinner64.last s)) \<longrightarrow>
           \<not> b64_less (b64_sub (Spinner64.period s) (timespec_diff_b64 t (Spinner64.last s)))
             (b64_round (1 / 1000)))"
      unfolding per by (intro gate_b64_near_exact)
  qed
  moreover have "Dotter64.period d = Finite q \<and> \<bar>q\<bar> \<le> 2 \<and>
      0 \<le> tv_nsec t \<and> tv_nsec t < 1000000000 \<and>
      0 \<le> tv_nsec (Dotter64.last d) \<and> tv_nsec (Dotter64.last d) < 1000000000 \<and>
      0 \<le> seconds_of t - seconds_of (Dotter64.last d) \<and>
      seconds_of t - seconds_of (Dotter64.last d) \<le> 1 \<longrightarrow>
        (q - (seconds_of t - seconds_of (Dotter64.last d)) < 1 / 1000 - 1 / 10 ^ 15 \<longrightarrow>
           b64_less (b64_sub (Dotter64.period d) (timespec_diff_b64 t (Dotter64.last d)))
             (b64_round (1 / 1000))) \<and>
        (1 / 1000 + 1 / 10 ^ 15 < q - (seconds_of t - seconds_of (Dotter64.last d)) \<longrightarrow>
           \<not> b64_less (b64_sub (Dotter64.period d) (timespec_diff_b64 t (Dotter64.last d)))
             (b64_round (1 / 1000)))"
  proof (rule impI, elim conjE)
    assume per: "Dotter64.period d = Finite q"
      and "\<bar>q\<bar> \<le> 2" "0 \<le> tv_nsec t" "tv_nsec t < 1000000000"
      "0 \<le> tv_nsec (Dotter64.last d)" "tv_nsec (Dotter64.last d) < 1000000000"
      "0 \<le> seconds_of t - seconds_of (Dotter64.last d)"
      "seconds_of t - seconds_of (Dotter64.last d) \<le> 1"
    then show "(q - (seconds_of t - seconds_of (Dotter64.last d)) < 1 / 1000 - 1 / 10 ^ 15 \<longrightarrow>
           b64_less (b64_sub (Dotter64.period d) (timespec_diff_b64 t (Dotter64.last d)))
             (b64_round (1 / 1000))) \<and>
        (1 / 1000 + 1 / 10 ^ 15 < q - (seconds_of t - seconds_of (Dotter64.last d)) \<longrightarrow>
           \<not> b64_less (b64_sub (Dotter64.period d) (timespec_diff_b64 t (Dotter64.last d)))
             (b64_round (1 / 1000)))"
      unfolding per by (intro gate_b64_near_exact)
  qed
  ultimately show ?thesis
    using Spinner64_call_glyphs [OF assms(1), of t] Dotter64_call_pattern [OF assms(2) d4, of t]
    by (intro conjI)
qed

theorem rate_gate_binary64_witness:
  "Spinner64.spin_chars (Spinner64_init 10 \<lparr>tv_sec = 100, tv_nsec = 0\<rparr> \<lparr>tv_sec = 0, tv_nsec = 0\<rparr>)
     = [CHR ''/'', CHR ''-'', CHR 0x5C, CHR ''|''] \<and>
   Dotter64.spin_chars (Dotter64_init 64 \<lparr>tv_sec = 100, tv_nsec = 0\<rparr> \<lparr>tv_sec = 0, tv_nsec = 0\<rparr>)
     = ''... .. .. .. .... .... .'' \<and>
   Dotter64.spinIndex (Dotter64_init 64 \<lparr>tv_sec = 100, tv_nsec = 0\<rparr> \<lparr>tv_sec = 0, tv_nsec = 0\<rparr>)
     = 4 * word_of_nat 0 \<and>
   Spinner64.period (Spinner64_init 10 \<lparr>tv_sec = 100, tv_nsec = 0\<rparr> \<lparr>tv_sec = 0, tv_nsec = 0\<rparr>)
     = Finite (3602879341608463 / 36028797018963968) \<and>
   seconds_of \<lparr>tv_sec = 100, tv_nsec = 99500000\<rparr> - seconds_of \<lparr>tv_sec = 100, tv_nsec = 0\<rparr>
     < 3602879341608463 / 36028797018963968 \<and>
   Spinner64_call \<lparr>tv_sec = 100, tv_nsec = 99500000\<rparr>
       (Spinner64_init 10 \<lparr>tv_sec = 100, tv_nsec = 0\<rparr> \<lparr>tv_sec = 0, tv_nsec = 0\<rparr>) =
     Inr ((Spinner64_init 10 \<lparr>tv_sec = 100, tv_nsec = 0\<rparr> \<lparr>tv_sec = 0, tv_nsec = 0\<rparr>)
            \<lparr>Spinner64.now := \<lparr>tv_sec = 100, tv_nsec = 99500000\<rparr>,
             Spinner64.spinIndex := 1,
             Spinner64.last := \<lparr>tv_sec = 100, tv_nsec = 99500000\<rparr>\<rparr>,
          [Putchar CHR '' '', Putchar CHR ''/'', Putchar CHR '' '', Fflush, Putchar CHR 0x0D]) \<and>
   Dotter64.period (Dotter64_init 64 \<lparr>tv_sec = 100, tv_nsec = 0\<rparr> \<lparr>tv_sec = 0, tv_nsec = 0\<rparr>)
     = Finite (1 / 64) \<and>
   Dotter64_call \<lparr>tv_sec = 100, tv_nsec = 14624999\<rparr>
       (Dotter64_init 64 \<lparr>tv_sec = 100, tv_nsec = 0\<rparr> \<lparr>tv_sec = 0, tv_nsec = 0\<rparr>) =
     Inr ((Dotter64_init 64 \<lparr>tv_sec = 100, tv_nsec = 0\<rparr> \<lparr>tv_sec = 0, tv_nsec = 0\<rparr>)
            \<lparr>Dotter64.now := \<lparr>tv_sec = 100, tv_nsec = 14624999\<rparr>\<rparr>, [])"
proof -
  let ?S = "Spinner64_init 10 \<lparr>tv_sec = 100, tv_nsec = 0\<rparr> \<lparr>tv_sec = 0, tv_nsec = 0\<rparr>"
  let ?D = "Dotter64_init 64 \<lparr>tv_sec = 100, tv_nsec = 0\<rparr> \<lparr>tv_sec = 0, tv_nsec = 0\<rparr>"
  let ?T = "\<lparr>tv_sec = 100, tv_nsec = 99500000\<rparr>"
  let ?U = "\<lparr>tv_sec = 100, tv_nsec = 14624999\<rparr>"
  let ?p = "3602879341608463 / 36028797018963968 :: real"
  have h1: "Spinner64.spin_chars ?S = [CHR ''/'', CHR ''-'', CHR 0x5C, CHR ''|'']"
    by (simp add: Spinner64_init_def)
  have h2: "Dotter64.spin_chars ?D = ''... .. .. .. .... .... .''"
    by (simp add: Dotter64_init_def)
  have h3: "Dotter64.spinIndex ?D = 4 * word_of_nat 0"
    by (simp add: Dotter64_init_def)
  have "b64_div (b64_of_int 1) (b64_add (b64_of_int 10) (b64_round (1 / 1000000))) = Finite ?p"
    by code_simp
  then have pS: "Spinner64.period ?S = Finite ?p"
    by (simp add: Spinner64_init_def)
  have "b64_div (b64_of_int 1) (b64_of_int 64) = Finite (1 / 64)"
    by code_simp
  then have pD: "Dotter64.period ?D = Finite (1 / 64)"
    by (simp add: Dotter64_init_def)
  have lS: "Spinner64.last ?S = \<lparr>tv_sec = 100, tv_nsec = 0\<rparr>"
    and iS: "Spinner64.spinIndex ?S = 0"
    by (simp_all add: Spinner64_init_def)
  have lD: "Dotter64.last ?D = \<lparr>tv_sec = 100, tv_nsec = 0\<rparr>"
    by (simp add: Dotter64_init_def)
  have before: "seconds_of ?T - seconds_of \<lparr>tv_sec = 100, tv_nsec = 0\<rparr> < ?p"
    by (simp add: seconds_of_def)
  note at_T = rate_gate_binary64 [OF h1 h2 h3, where t = ?T and p = ?p and q = "1 / 64"]
  note at_U = rate_gate_binary64 [OF h1 h2 h3, where t = ?U and p = ?p and q = "1 / 64"]
  have gS: "b64_less (b64_sub (Spinner64.period ?S) (timespec_diff_b64 ?T (Spinner64.last ?S)))
      (b64_round (1 / 1000))"
    using at_T pS by (simp add: lS seconds_of_def)
  have gD: "\<not> b64_less (b64_sub (Dotter64.period ?D) (timespec_diff_b64 ?U (Dotter64.last ?D)))
      (b64_round (1 / 1000))"
    using at_U pD by (simp add: lD seconds_of_def)
  from at_T gS
  have "Spinner64_call ?T ?S =
      Inr (?S\<lparr>Spinner64.now := ?T, Spinner64.spinIndex := Spinner64.spinIndex ?S + 1,
               Spinner64.last := ?T\<rparr>,
           [Putchar CHR '' '',
            Putchar ([CHR ''/'', CHR ''-'', CHR 0x5C, CHR ''|''] ! (unat (Spinner64.spinIndex ?S) mod 4)),
            Putchar CHR '' '', Fflush, Putchar CHR 0x0D])"
    by (simp only: if_True)
  then have w1: "Spinner64_call ?T ?S =
      Inr (?S\<lparr>Spinner64.now := ?T, Spinner64.spinIndex := 1, Spinner64.last := ?T\<rparr>,
           [Putchar CHR '' '', Putchar CHR ''/'', Putchar CHR '' '', Fflush, Putchar CHR 0x0D])"
    by (simp only: iS) simp
  from at_U gD
  have w2: "Dotter64_call ?U ?D = Inr (?D\<lparr>Dotter64.now := ?U\<rparr>, [])"
    by (simp only: if_False)
  show ?thesis using h1 h2 h3 pS before w1 pD w2 by (intro conjI)
qed

text \<open>
  In exact arithmetic the test is not the one the source performs: a Dotter constructed
  with frequency 64 stores the period 1/64 exactly, and polled 14.625 ms after its last
  trigger it has period minus elapsed time equal to 0.001, not below it, yet the frame is
  emitted.
\<close>

theorem rate_gate_exact_counterexample:
  "Dotter64.period (Dotter64_init 64 \<lparr>tv_sec = 100, tv_nsec = 0\<rparr> \<lparr>tv_sec = 0, tv_nsec = 0\<rparr>)
     = Finite (1 / 64) \<and>
   \<not> 1 / 64 - (seconds_of \<lparr>tv_sec = 100, tv_nsec = 14625000\<rparr> -
        seconds_of (Dotter64.last
          (Dotter64_init 64 \<lparr>tv_sec = 100, tv_nsec = 0\<rparr> \<lparr>tv_sec = 0, tv_nsec = 0\<rparr>)))
       < 1 / 1000 \<and>
   Dotter64_call \<lparr>tv_sec = 100, tv_nsec = 14625000\<rparr>
       (Dotter64_init 64 \<lparr>tv_sec = 100, tv_nsec = 0\<rparr> \<lparr>tv_sec = 0, tv_nsec = 0\<rparr>) =
     Inr ((Dotter64_init 64 \<lparr>tv_sec = 100, tv_nsec = 0\<rparr> \<lparr>tv_sec = 0, tv_nsec = 0\<rparr>)
            \<lparr>Dotter64.now := \<lparr>tv_sec = 100, tv_nsec = 14625000\<rparr>,
             Dotter64.spinIndex := 4,
             Dotter64.last := \<lparr>tv_sec = 100, tv_nsec = 14625000\<rparr>\<rparr>,
          [Putchar CHR '' '', Putchar CHR ''.'', Putchar CHR ''.'', Putchar CHR ''.'',
           Putchar CHR '' '', Putchar CHR '' '', Fflush, Putchar CHR 0x0D])"
proof -
  let ?D = "Dotter64_init 64 \<lparr>tv_sec = 100, tv_nsec = 0\<rparr> \<lparr>tv_sec = 0, tv_nsec = 0\<rparr>"
  let ?T = "\<lparr>tv_sec = 100, tv_nsec = 14625000\<rparr>"
  have "b64_div (b64_of_int 1) (b64_of_int 64) = Finite (1 / 64)"
    by code_simp
  then have p: "Dotter64.period ?D = Finite (1 / 64)"
    by (simp add: Dotter64_init_def)
  have exact: "\<not> 1 / 64 - (seconds_of ?T - seconds_of (Dotter64.last ?D)) < 1 / 1000"
    by (simp add: Dotter64_init_def seconds_of_def)
  have "b64_less
          (b64_sub (b64_div (b64_of_int 1) (b64_of_int 64))
             (timespec_diff_b64 ?T \<lparr>tv_sec = 100, tv_nsec = 0\<rparr>))
          (b64_round (1 / 1000))"
    by code_simp
  then have g: "b64_less (b64_sub (Dotter64.period ?D) (timespec_diff_b64 ?T (Dotter64.last ?D)))
      (b64_round (1 / 1000))"
    by (simp add: Dotter64_init_def)
  have h: "Dotter64.spin_chars ?D = ''... .. .. .. .... .... .''"
    and i: "Dotter64.spinIndex ?D = 0"
    by (simp_all add: Dotter64_init_def)
  have d4: "4 dvd unat (Dotter64.spinIndex ?D)"
    by (simp only: i) simp
  have "Dotter64_call ?T ?D =
     Inr (?D\<lparr>Dotter64.now := ?T, Dotter64.spinIndex := Dotter64.spinIndex ?D + 4,
              Dotter64.last := ?T\<rparr>,
                [Putchar CHR '' '',
                 Putchar (''... .. .. .. .... .... .'' ! (unat (Dotter64.spinIndex ?D) mod 24)),
                 Putchar (''... .. .. .. .... .... .'' ! (unat (Dotter64.spinIndex ?D) mod 24 + 1)),
                 Putchar (''... .. .. .. .... .... .'' ! (unat (Dotter64.spinIndex ?D) mod 24 + 2)),
                 Putchar (''... .. .. .. .... .... .'' ! (unat (Dotter64.spinIndex ?D) mod 24 + 3)),
                 Putchar CHR '' '', Fflush, Putchar CHR 0x0D])"
    using g by (simp only: Dotter64_call_pattern [OF h d4] if_True)
  then have call: "Dotter64_call ?T ?D =
     Inr (?D\<lparr>Dotter64.now := ?T, Dotter64.spinIndex := 4, Dotter64.last := ?T\<rparr>,
          [Putchar CHR '' '', Putchar CHR ''.'', Putchar CHR ''.'', Putchar CHR ''.'',
           Putchar CHR '' '', Putchar CHR '' '', Fflush, Putchar CHR 0x0D])"
    by (simp only: i) simp
  show ?thesis using p exact call by (intro conjI)
qed

section \<open>Frames of the Spinner and the Dotter\<close>

text \<open>
  C2. The pattern of a Dotter has 24 characters. Whenever the frame index is a multiple
  of 4 reached from 0 in steps of 4 (with the wrap-around of \<^verbatim>\<open>unsigned long\<close>), the
  four subscripts are the index modulo 24 and the next three positions, all below 24,
  and a poll that fires emits exactly the four pattern characters at these positions
  and advances the frame index by 4.
\<close>

theorem Dotter_frame_in_bounds:
  assumes "Dotter.spin_chars d = ''... .. .. .. .... .... .''"
    and "Dotter.spinIndex d = 4 * word_of_nat n"
  shows
    "length (Dotter.spin_chars d) = 24 \<and>
     (\<exists>b. Dotter_subscripts d = Inr [b, b + 1, b + 2, b + 3] \<and>
        unat b = unat (Dotter.spinIndex d) mod 24 \<and>
        unat (b + 1) = unat b + 1 \<and> unat (b + 2) = unat b + 2 \<and> unat (b + 3) = unat b + 3 \<and>
        unat b + 3 < length (Dotter.spin_chars d)) \<and>
     (Dotter.period d - (seconds_of t - seconds_of (Dotter.last d)) < 1 / 1000 \<longrightarrow>
        (\<exists>d' i. Dotter_call t d =
           Inr (d', [Putchar CHR '' '',
                     Putchar (Dotter.spin_chars d ! i), Putchar (Dotter.spin_chars d ! (i + 1)),
                     Putchar (Dotter.spin_chars d ! (i + 2)), Putchar (Dotter.spin_chars d ! (i + 3)),
                     Putchar CHR '' '', Fflush, Putchar CHR 0x0D]) \<and>
           i = unat (Dotter.spinIndex d) mod 24 \<and>
           i + 3 < length (Dotter.spin_chars d) \<and>
           Dotter.spinIndex d' = Dotter.spinIndex d + 4))"
proof -
  let ?b = "Dotter.spinIndex d mod 24"
  have d4: "4 dvd unat (Dotter.spinIndex d)"
    using assms(2) dvd4_unat_times4 by simp
  have len: "length (Dotter.spin_chars d) = 24"
    by (simp only: assms(1) Dotter_pattern_length)
  have lt: "unat ?b + 3 < 24" using d4 by (rule dvd4_unat_mod24)
  have ub: "unat ?b = unat (Dotter.spinIndex d) mod 24" by (simp add: unat_mod_distrib)
  have subs: "\<exists>b. Dotter_subscripts d = Inr [b, b + 1, b + 2, b + 3] \<and>
        unat b = unat (Dotter.spinIndex d) mod 24 \<and>
        unat (b + 1) = unat b + 1 \<and> unat (b + 2) = unat b + 2 \<and> unat (b + 3) = unat b + 3 \<and>
        unat b + 3 < length (Dotter.spin_chars d)"
    using Dotter_subscripts_pattern [OF assms(1)] ub unat_base_plus [OF lt] lt len
    by (intro exI [of _ ?b] conjI; simp)
  have fire: "Dotter.period d - (seconds_of t - seconds_of (Dotter.last d)) < 1 / 1000 \<longrightarrow>
        (\<exists>d' i. Dotter_call t d =
           Inr (d', [Putchar CHR '' '',
                     Putchar (Dotter.spin_chars d ! i), Putchar (Dotter.spin_chars d ! (i + 1)),
                     Putchar (Dotter.spin_chars d ! (i + 2)), Putchar (Dotter.spin_chars d ! (i + 3)),
                     Putchar CHR '' '', Fflush, Putchar CHR 0x0D]) \<and>
           i = unat (Dotter.spinIndex d) mod 24 \<and>
           i + 3 < length (Dotter.spin_chars d) \<and>
           Dotter.spinIndex d' = Dotter.spinIndex d + 4)"
  proof
    assume c: "Dotter.period d - (seconds_of t - seconds_of (Dotter.last d)) < 1 / 1000"
    let ?d1 = "d\<lparr>Dotter.now := t, Dotter.spinIndex := Dotter.spinIndex d + 4, Dotter.last := t\<rparr>"
    let ?i = "unat (Dotter.spinIndex d) mod 24"
    have "Dotter_call t d =
           Inr (?d1, [Putchar CHR '' '',
                     Putchar (Dotter.spin_chars d ! ?i), Putchar (Dotter.spin_chars d ! (?i + 1)),
                     Putchar (Dotter.spin_chars d ! (?i + 2)), Putchar (Dotter.spin_chars d ! (?i + 3)),
                     Putchar CHR '' '', Fflush, Putchar CHR 0x0D])"
      using c by (simp only: Dotter_call_pattern [OF assms(1) d4] assms(1) if_True)
    moreover have "?i + 3 < length (Dotter.spin_chars d)" using lt ub len by simp
    moreover have "Dotter.spinIndex ?d1 = Dotter.spinIndex d + 4" by simp
    ultimately show "\<exists>d' i. Dotter_call t d =
           Inr (d', [Putchar CHR '' '',
                     Putchar (Dotter.spin_chars d ! i), Putchar (Dotter.spin_chars d ! (i + 1)),
                     Putchar (Dotter.spin_chars d ! (i + 2)), Putchar (Dotter.spin_chars d ! (i + 3)),
                     Putchar CHR '' '', Fflush, Putchar CHR 0x0D]) \<and>
           i = unat (Dotter.spinIndex d) mod 24 \<and>
           i + 3 < length (Dotter.spin_chars d) \<and>
           Dotter.spinIndex d' = Dotter.spinIndex d + 4"
      by blast
  qed
  show ?thesis using len subs fire by blast
qed

theorem Dotter_frame_in_bounds_witness:
  "Dotter.spin_chars ((Dotter_init 10 \<lparr>tv_sec = 100, tv_nsec = 0\<rparr> \<lparr>tv_sec = 0, tv_nsec = 0\<rparr>)
       \<lparr>Dotter.spinIndex := 4 * word_of_nat 5\<rparr>) = ''... .. .. .. .... .... .'' \<and>
   Dotter.spinIndex ((Dotter_init 10 \<lparr>tv_sec = 100, tv_nsec = 0\<rparr> \<lparr>tv_sec = 0, tv_nsec = 0\<rparr>)
       \<lparr>Dotter.spinIndex := 4 * word_of_nat 5\<rparr>) = 4 * word_of_nat 5 \<and>
   (\<exists>d'. Dotter_call \<lparr>tv_sec = 100, tv_nsec = 99500000\<rparr>
       ((Dotter_init 10 \<lparr>tv_sec = 100, tv_nsec = 0\<rparr> \<lparr>tv_sec = 0, tv_nsec = 0\<rparr>)
          \<lparr>Dotter.spinIndex := 4 * word_of_nat 5\<rparr>) =
      Inr (d', [Putchar CHR '' '', Putchar CHR ''.'', Putchar CHR ''.'', Putchar CHR '' '',
                Putchar CHR ''.'', Putchar CHR '' '', Fflush, Putchar CHR 0x0D]) \<and>
      Dotter.spinIndex d' = 24)"
proof -
  let ?D = "(Dotter_init 10 \<lparr>tv_sec = 100, tv_nsec = 0\<rparr> \<lparr>tv_sec = 0, tv_nsec = 0\<rparr>)
       \<lparr>Dotter.spinIndex := 4 * word_of_nat 5\<rparr>"
  have h1: "Dotter.spin_chars ?D = ''... .. .. .. .... .... .''"
    by (simp add: Dotter_init_def)
  have h2: "Dotter.spinIndex ?D = 4 * word_of_nat 5"
    by simp
  have c: "Dotter.period ?D
      - (seconds_of \<lparr>tv_sec = 100, tv_nsec = 99500000\<rparr> - seconds_of (Dotter.last ?D)) < 1 / 1000"
    by (simp add: Dotter_init_def seconds_of_def)
  have i: "unat (Dotter.spinIndex ?D) mod 24 = 20"
    by simp
  from Dotter_frame_in_bounds [OF h1 h2, of "\<lparr>tv_sec = 100, tv_nsec = 99500000\<rparr>"] c
  obtain d' where "Dotter_call \<lparr>tv_sec = 100, tv_nsec = 99500000\<rparr> ?D =
           Inr (d', [Putchar CHR '' '',
                     Putchar (Dotter.spin_chars ?D ! 20), Putchar (Dotter.spin_chars ?D ! (20 + 1)),
                     Putchar (Dotter.spin_chars ?D ! (20 + 2)), Putchar (Dotter.spin_chars ?D ! (20 + 3)),
                     Putchar CHR '' '', Fflush, Putchar CHR 0x0D])"
     "Dotter.spinIndex d' = Dotter.spinIndex ?D + 4"
    unfolding i by blast
  then have "Dotter_call \<lparr>tv_sec = 100, tv_nsec = 99500000\<rparr> ?D =
      Inr (d', [Putchar CHR '' '', Putchar CHR ''.'', Putchar CHR ''.'', Putchar CHR '' '',
                Putchar CHR ''.'', Putchar CHR '' '', Fflush, Putchar CHR 0x0D]) \<and>
      Dotter.spinIndex d' = 24"
    by (simp add: Dotter_init_def)
  then show ?thesis using h1 h2 by blast
qed

text \<open>
  The pattern does not have 25 characters and the base subscript is not the frame
  index modulo 25: after six frames the frame index is 24 and the subscripts are
  0, 1, 2, 3.
\<close>

theorem Dotter_pattern_25_counterexample:
  "length (Dotter.spin_chars (Dotter_init 10 \<lparr>tv_sec = 100, tv_nsec = 0\<rparr> \<lparr>tv_sec = 0, tv_nsec = 0\<rparr>))
     \<noteq> 25 \<and>
   Dotter_subscripts ((Dotter_init 10 \<lparr>tv_sec = 100, tv_nsec = 0\<rparr> \<lparr>tv_sec = 0, tv_nsec = 0\<rparr>)
       \<lparr>Dotter.spinIndex := 24\<rparr>) = Inr [0, 1, 2, 3] \<and>
   Dotter_subscripts ((Dotter_init 10 \<lparr>tv_sec = 100, tv_nsec = 0\<rparr> \<lparr>tv_sec = 0, tv_nsec = 0\<rparr>)
       \<lparr>Dotter.spinIndex := 24\<rparr>) \<noteq> Inr [24 mod 25, 24 mod 25 + 1, 24 mod 25 + 2, 24 mod 25 + 3]"
  by (simp add: Dotter_init_def Dotter_subscripts_def index_mod_length_def)

text \<open>
  C4. Whatever the frequency, the construction sample and the samples read by the polls,
  the output of a Spinner is a sequence of frames of which the one numbered \<open>n\<close>
  (from 0) shows the glyph at position \<open>n mod 4\<close> of slash, minus, backslash, bar,
  and the frame index ends as the number of frames emitted.
\<close>

theorem Spinner_glyph_cycle:
  "\<exists>s k. Spinner_polls ts (Spinner_init f t0 junk) =
           Inr (s, concat (map (\<lambda>n. [Putchar CHR '' '',
                     Putchar ([CHR ''/'', CHR ''-'', CHR 0x5C, CHR ''|''] ! (n mod 4)),
                     Putchar CHR '' '', Fflush, Putchar CHR 0x0D]) [0..<k])) \<and>
         Spinner.spinIndex s = word_of_nat k"
proof -
  have "Spinner.spin_chars (Spinner_init f t0 junk) = [CHR ''/'', CHR ''-'', CHR 0x5C, CHR ''|'']"
    and "Spinner.spinIndex (Spinner_init f t0 junk) = word_of_nat 0"
    by (simp_all add: Spinner_init_def)
  from Spinner_polls_frames [OF this, of ts] show ?thesis
    by auto
qed

theorem Spinner_glyph_cycle_witness:
  "\<exists>s. Spinner_polls
      [\<lparr>tv_sec = 100, tv_nsec = 100000000\<rparr>, \<lparr>tv_sec = 100, tv_nsec = 150000000\<rparr>,
       \<lparr>tv_sec = 100, tv_nsec = 200000000\<rparr>, \<lparr>tv_sec = 100, tv_nsec = 300000000\<rparr>,
       \<lparr>tv_sec = 100, tv_nsec = 400000000\<rparr>, \<lparr>tv_sec = 100, tv_nsec = 500000000\<rparr>]
      (Spinner_init 10 \<lparr>tv_sec = 100, tv_nsec = 0\<rparr> \<lparr>tv_sec = 0, tv_nsec = 0\<rparr>) =
    Inr (s, concat (map (\<lambda>n. [Putchar CHR '' '',
                     Putchar ([CHR ''/'', CHR ''-'', CHR 0x5C, CHR ''|''] ! (n mod 4)),
                     Putchar CHR '' '', Fflush, Putchar CHR 0x0D]) [0..<5])) \<and>
    Spinner.spinIndex s = word_of_nat 5"
proof -
  let ?ts = "[\<lparr>tv_sec = 100, tv_nsec = 100000000\<rparr>, \<lparr>tv_sec = 100, tv_nsec = 150000000\<rparr>,
       \<lparr>tv_sec = 100, tv_nsec = 200000000\<rparr>, \<lparr>tv_sec = 100, tv_nsec = 300000000\<rparr>,
       \<lparr>tv_sec = 100, tv_nsec = 400000000\<rparr>, \<lparr>tv_sec = 100, tv_nsec = 500000000\<rparr>]"
  let ?S = "Spinner_init 10 \<lparr>tv_sec = 100, tv_nsec = 0\<rparr> \<lparr>tv_sec = 0, tv_nsec = 0\<rparr>"
  let ?frame = "\<lambda>n. [Putchar CHR '' '',
                     Putchar ([CHR ''/'', CHR ''-'', CHR 0x5C, CHR ''|''] ! (n mod 4)),
                     Putchar CHR '' '', Fflush, Putchar CHR 0x0D]"
  obtain s k where run: "Spinner_polls ?ts ?S = Inr (s, concat (map ?frame [0..<k]))"
    and idx: "Spinner.spinIndex s = word_of_nat k"
    using Spinner_glyph_cycle [of ?ts 10 "\<lparr>tv_sec = 100, tv_nsec = 0\<rparr>" "\<lparr>tv_sec = 0, tv_nsec = 0\<rparr>"]
    by blast
  have "\<exists>s out. Spinner_polls ?ts ?S = Inr (s, out) \<and> length out = 25"
    by (simp add: Spinner_call_def Spinner_init_def index_mod_length_def string_subscript_def
        timespec_diff_def Let_def)
  then have "length (concat (map ?frame [0..<k])) = 25"
    using run by auto
  then have "k = 5" by (simp only: length_frames)
  then show ?thesis using run idx by blast
qed



text \<open>
  C5. For a positive frequency \<open>f\<close> the period of a Spinner is \<open>1 / (f + 1 / 1000000)\<close>
  and the period of a Dotter is \<open>1 / f\<close>; the two differ, the Spinner's being shorter.
\<close>

theorem period_conversions:
  assumes "0 < f"
  shows "Spinner.period (Spinner_init f t0 junk) = 1 / (real_of_int f + 1 / 1000000) \<and>
         Dotter.period (Dotter_init f t1 junk1) = 1 / real_of_int f \<and>
         Spinner.period (Spinner_init f t0 junk) < Dotter.period (Dotter_init f t1 junk1)"
proof -
  have "0 < real_of_int f" using assms by simp
  then have "1 / (real_of_int f + 1 / 1000000) < 1 / real_of_int f"
    by (simp add: frac_less2)
  then show ?thesis by (simp add: Spinner_init_def Dotter_init_def)
qed

theorem period_conversions_witness:
  "(0::int) < 10 \<and>
   Spinner.period (Spinner_init 10 \<lparr>tv_sec = 100, tv_nsec = 0\<rparr> \<lparr>tv_sec = 0, tv_nsec = 0\<rparr>)
     = 1000000 / 10000001 \<and>
   Dotter.period (Dotter_init 10 \<lparr>tv_sec = 100, tv_nsec = 0\<rparr> \<lparr>tv_sec = 0, tv_nsec = 0\<rparr>)
     = 1 / 10"
  using period_conversions [of 10 "\<lparr>tv_sec = 100, tv_nsec = 0\<rparr>" "\<lparr>tv_sec = 0, tv_nsec = 0\<rparr>"
      "\<lparr>tv_sec = 100, tv_nsec = 0\<rparr>" "\<lparr>tv_sec = 0, tv_nsec = 0\<rparr>"]
  by simp

end
